theory Spec2Isabelle
  imports Complex_Main "HOL-Library.Word" "HOL-Library.Option_ord" "HOL-Library.Log_Nat"
    "HOL-Library.Sublist" "HOL-Library.Multiset"
begin

section \<open>Reaction classifier (database.ts, lines 10-39)\<close>

datatype ReactionType = Love | Like | Dislike | Laugh | Emphasis | Question

text \<open>
  \<^verbatim>\<open>REACTION_TYPE_MAP\<close>: the object literal with the six keys 2000 .. 2005. A key that is
  not there reads as \<^verbatim>\<open>undefined\<close>, here \<open>None\<close>.
\<close>

definition REACTION_TYPE_MAP :: "int \<rightharpoonup> ReactionType" where
  "REACTION_TYPE_MAP =
     [2000 \<mapsto> Love, 2001 \<mapsto> Like, 2002 \<mapsto> Dislike, 2003 \<mapsto> Laugh, 2004 \<mapsto> Emphasis,
      2005 \<mapsto> Question]"

text \<open>
  \<^verbatim>\<open>isReactionMessage(associatedMessageType: number | null)\<close>: the guard
  \<^verbatim>\<open>!associatedMessageType\<close> holds for \<^verbatim>\<open>null\<close> and for 0.
\<close>

definition isReactionMessage :: "int option \<Rightarrow> bool" where
  "isReactionMessage associatedMessageType =
     (case associatedMessageType of
        None \<Rightarrow> False
      | Some t \<Rightarrow>
          if t = 0 then False
          else (t \<ge> 2000 \<and> t \<le> 2005) \<or> (t \<ge> 3000 \<and> t \<le> 3005))"

text \<open>
  \<^verbatim>\<open>getReactionType\<close>: \<^verbatim>\<open>REACTION_TYPE_MAP[normalized] || null\<close>; every entry of the map is a
  non-empty string, so \<^verbatim>\<open>||\<close> only replaces \<^verbatim>\<open>undefined\<close>.
\<close>

definition getReactionType :: "int \<Rightarrow> ReactionType option" where
  "getReactionType associatedMessageType =
     (let normalized = (if associatedMessageType \<ge> 3000 then associatedMessageType - 1000
                        else associatedMessageType)
      in REACTION_TYPE_MAP normalized)"

definition isRemoveReaction :: "int \<Rightarrow> bool" where
  "isRemoveReaction associatedMessageType =
     (associatedMessageType \<ge> 3000 \<and> associatedMessageType \<le> 3005)"


section \<open>JavaScript numbers\<close>

text \<open>
  A JavaScript number is an IEEE 754 double. A finite double is modelled by the rational it
  denotes, and every arithmetic operation returns the exact result rounded to the nearest
  double, ties to the even significand (\<open>fl64\<close>). The significand has 53 bits; below
  the exponent \<open>-1074\<close> the spacing stays that of the subnormals. Overflow to infinity
  (a magnitude of \<open>2 ^ 1024\<close> or more) and NaN are not modelled: no operation of the
  program below reaches them on 64-bit integer columns.
\<close>

definition pow2 :: "int \<Rightarrow> rat" where
  "pow2 e = (if e \<ge> 0 then 2 ^ nat e else 1 / 2 ^ nat (- e))"

definition round_half_even :: "rat \<Rightarrow> int" where
  "round_half_even q =
     (let n = \<lfloor>q\<rfloor>; d = q - of_int n
      in if d < 1 / 2 then n else if 1 / 2 < d then n + 1 else if even n then n else n + 1)"

text \<open>\<open>binade x\<close> is the exponent \<open>e\<close> with \<open>2 ^ e \<le> x < 2 ^ (e + 1)\<close>, for \<open>x > 0\<close>.\<close>

definition binade :: "rat \<Rightarrow> int" where
  "binade x =
     (case quotient_of x of (a, b) \<Rightarrow>
        let d = bitlen a - bitlen b in if pow2 d \<le> x then d else d - 1)"

definition fl64 :: "rat \<Rightarrow> rat" where
  "fl64 x =
     (if x = 0 then 0
      else let e = max (binade \<bar>x\<bar> - 52) (- 1074)
           in sgn x * of_int (round_half_even (\<bar>x\<bar> / pow2 e)) * pow2 e)"

definition js_add :: "rat \<Rightarrow> rat \<Rightarrow> rat" where
  "js_add a b = fl64 (a + b)"

definition js_div :: "rat \<Rightarrow> rat \<Rightarrow> rat" where
  "js_div a b = fl64 (a / b)"

text \<open>
  An integer column reaches the program as a number: the database is opened without
  \<^verbatim>\<open>safeIntegers\<close>, so the driver hands a 64-bit integer over as the nearest double.
\<close>

definition Number_of_int64 :: "int \<Rightarrow> rat" where
  "Number_of_int64 n = fl64 (of_int n)"

text \<open>\<^verbatim>\<open>Math.floor\<close> is exact: the floor of a double is a double.\<close>

definition Math_floor :: "rat \<Rightarrow> int" where
  "Math_floor x = \<lfloor>x\<rfloor>"

section \<open>JavaScript values and strings\<close>

text \<open>
  Strings are lists of Isabelle characters, so a code unit is below 256; this covers the
  identifiers, prefixes and markers that the program inspects. The values that the property
  list parser can hand back are untyped in the source (\<^verbatim>\<open>any\<close>): \<open>jsval\<close> lists the
  shapes that matter, with numbers restricted to integers.
\<close>

type_synonym byte = "8 word"

datatype jsval =
    JUndefined
  | JNull
  | JBool bool
  | JNum int
  | JStr string
  | JBuf "byte list"
  | JArr "jsval list"
  | JObj "(string \<times> jsval) list"

fun truthy :: "jsval \<Rightarrow> bool" where
  "truthy JUndefined = False"
| "truthy JNull = False"
| "truthy (JBool b) = b"
| "truthy (JNum n) = (n \<noteq> 0)"
| "truthy (JStr s) = (s \<noteq> [])"
| "truthy (JBuf b) = True"
| "truthy (JArr xs) = True"
| "truthy (JObj kvs) = True"

datatype error = ParseError | TypeError

text \<open>
  Reading a property: \<^verbatim>\<open>null\<close> and \<^verbatim>\<open>undefined\<close> raise a TypeError, an object gives
  the value stored under the key or \<^verbatim>\<open>undefined\<close>, and every other value has none of the
  keys the decoder asks for.
\<close>

fun get_prop :: "jsval \<Rightarrow> string \<Rightarrow> error + jsval" where
  "get_prop JUndefined k = Inl TypeError"
| "get_prop JNull k = Inl TypeError"
| "get_prop (JObj kvs) k = Inr (case map_of kvs k of None \<Rightarrow> JUndefined | Some v \<Rightarrow> v)"
| "get_prop v k = Inr JUndefined"

text \<open>\<^verbatim>\<open>String(n)\<close> for an integer: its decimal digits, with a minus sign when negative.\<close>

fun string_of_nat :: "nat \<Rightarrow> string" where
  "string_of_nat n =
     (if n < 10 then [''0123456789'' ! n]
      else string_of_nat (n div 10) @ [''0123456789'' ! (n mod 10)])"

definition String_of_int :: "int \<Rightarrow> string" where
  "String_of_int n = (if n < 0 then CHR ''-'' # string_of_nat (nat (- n)) else string_of_nat (nat n))"

definition Boolean_of_int :: "int \<Rightarrow> bool" where
  "Boolean_of_int n = (n \<noteq> 0)"

definition includes_char :: "string \<Rightarrow> char \<Rightarrow> bool" where
  "includes_char s c = (c \<in> set s)"

definition is_digit :: "char \<Rightarrow> bool" where
  "is_digit c = ((48::nat) \<le> of_char c \<and> of_char c \<le> (57::nat))"

definition is_control :: "char \<Rightarrow> bool" where
  "is_control c = (of_char c \<le> (0x1f::nat))"

definition is_control_or_c1 :: "char \<Rightarrow> bool" where
  "is_control_or_c1 c = (is_control c \<or> ((0x80::nat) \<le> of_char c \<and> of_char c \<le> (0x9f::nat)))"

text \<open>The white space and line terminators that \<^verbatim>\<open>trim\<close> removes, among the code units below 256.\<close>

definition is_js_space :: "char \<Rightarrow> bool" where
  "is_js_space c = (of_char c \<in> {9, 10, 11, 12, 13, 32, 160 :: nat})"

definition trim :: "string \<Rightarrow> string" where
  "trim s = dropWhile is_js_space (rev (dropWhile is_js_space (rev s)))"

text \<open>\<^verbatim>\<open>s.replace(/[\x00-\x1f\x80-\x9f]+$/, '')\<close>: the longest run of such characters at the end goes.\<close>

definition strip_trailing_garbage :: "string \<Rightarrow> string" where
  "strip_trailing_garbage s = rev (dropWhile is_control_or_c1 (rev s))"

text \<open>\<^verbatim>\<open>/^[\x00-\x1f]*$/.test(s)\<close>\<close>

definition only_control :: "string \<Rightarrow> bool" where
  "only_control s = list_all is_control s"

section \<open>Collaborators of the database reader\<close>

text \<open>
  What the reader calls but does not define is a parameter of the model:
  \<^item> \<open>now\<close>: the reading of \<^verbatim>\<open>Date.now()\<close>, one reading for a whole call;
  \<^item> \<open>parseBuffer\<close>: \<^verbatim>\<open>bplistParser.parseBuffer\<close>, which raises (\<open>Inl\<close>) or returns an array;
  \<^item> \<open>utf8\<close>: \<^verbatim>\<open>Buffer.toString('utf8')\<close>;
  \<^item> \<open>contactsResolver\<close>: the optional resolver passed to the constructor, as its
    \<^verbatim>\<open>resolve\<close> method;
  \<^item> \<open>bind_rowid\<close>: the conversion the SQL engine applies to a text parameter compared with
    an integer column (text that is not a well-formed number equals no integer).
\<close>

record env =
  now :: int
  parseBuffer :: "byte list \<Rightarrow> error + jsval list"
  utf8 :: "byte list \<Rightarrow> string"
  contactsResolver :: "(string \<Rightarrow> string option) option"
  bind_rowid :: "string \<Rightarrow> int option"

section \<open>Binary text decoder (database.ts, lines 51-149)\<close>

definition bplist_magic :: "byte list" where
  "bplist_magic = [0x62, 0x70, 0x6c, 0x69, 0x73, 0x74]"

definition nsStringMarker :: "byte list" where
  "nsStringMarker = [0x4e, 0x53, 0x53, 0x74, 0x72, 0x69, 0x6e, 0x67]"

definition isBplist :: "byte list \<Rightarrow> bool" where
  "isBplist attributedBody =
     (length attributedBody \<ge> 6 \<and>
      attributedBody ! 0 = 0x62 \<and>
      attributedBody ! 1 = 0x70 \<and>
      attributedBody ! 2 = 0x6c \<and>
      attributedBody ! 3 = 0x69 \<and>
      attributedBody ! 4 = 0x73 \<and>
      attributedBody ! 5 = 0x74)"

text \<open>\<^verbatim>\<open>Buffer.indexOf\<close>: the first position where the marker starts, \<open>None\<close> for \<^verbatim>\<open>-1\<close>.\<close>

fun indexOf_from :: "nat \<Rightarrow> byte list \<Rightarrow> byte list \<Rightarrow> nat option" where
  "indexOf_from i [] marker = (if marker = [] then Some i else None)"
| "indexOf_from i (x # xs) marker =
     (if prefix marker (x # xs) then Some i else indexOf_from (Suc i) xs marker)"

definition indexOf :: "byte list \<Rightarrow> byte list \<Rightarrow> nat option" where
  "indexOf buf marker = indexOf_from 0 buf marker"

text \<open>
  The body of the \<^verbatim>\<open>try\<close> block. It either raises (\<open>Inl\<close>), returns a value
  (\<open>Inr (Some v)\<close>) or runs to its end (\<open>Inr None\<close>).
\<close>

definition string_keys :: "jsval \<Rightarrow> error + jsval option" where
  "string_keys obj =
     (case get_prop obj ''NSString'' of
        Inl e \<Rightarrow> Inl e
      | Inr v1 \<Rightarrow>
          if truthy v1 then Inr (Some v1)
          else (case get_prop obj ''NS.string'' of
                  Inl e \<Rightarrow> Inl e
                | Inr v2 \<Rightarrow> if truthy v2 then Inr (Some v2) else Inr None))"

definition bplist_try :: "env \<Rightarrow> byte list \<Rightarrow> error + jsval option" where
  "bplist_try e attributedBody =
     (case parseBuffer e attributedBody of
        Inl err \<Rightarrow> Inl err
      | Inr parsed \<Rightarrow>
          if length parsed > 0 then
            (let obj = parsed ! 0
             in case string_keys obj of
                  Inl err \<Rightarrow> Inl err
                | Inr (Some v) \<Rightarrow> Inr (Some v)
                | Inr None \<Rightarrow>
                    (case get_prop obj ''NSAttributedString'' of
                       Inl err \<Rightarrow> Inl err
                     | Inr attrString \<Rightarrow>
                         if truthy attrString then string_keys attrString else Inr None))
          else Inr None)"

text \<open>
  The scan after the marker: the length field and the text. The result pairs the text
  length with the offset of the first text byte.
\<close>

definition skip_null :: "byte list \<Rightarrow> nat \<Rightarrow> nat" where
  "skip_null attributedBody offset =
     (if offset < length attributedBody \<and> attributedBody ! offset = 0x00 then offset + 1
      else offset)"

definition read_length :: "byte list \<Rightarrow> nat \<Rightarrow> nat \<times> nat" where
  "read_length attributedBody offset =
     (if attributedBody ! offset \<ge> 0x80 then
        (let extraBytes = unat (attributedBody ! offset) - 0x80;
             offset = offset + 1
         in if extraBytes = 1 \<and> offset < length attributedBody then
              (unat (attributedBody ! offset), skip_null attributedBody (offset + 1))
            else if extraBytes = 2 \<and> offset + 1 < length attributedBody then
              (or (push_bit 8 (unat (attributedBody ! offset)))
                  (unat (attributedBody ! (offset + 1))),
               skip_null attributedBody (offset + 2))
            else (0, offset))
      else (unat (attributedBody ! offset), offset + 1))"

definition typedstream_text :: "env \<Rightarrow> byte list \<Rightarrow> jsval" where
  "typedstream_text e attributedBody =
     (case indexOf attributedBody nsStringMarker of
        None \<Rightarrow> JNull
      | Some markerIndex \<Rightarrow>
          (let offset = markerIndex + length nsStringMarker;
               offset = offset + 4;
               offset = (if offset < length attributedBody \<and> attributedBody ! offset = 0x2b
                         then offset + 1 else offset)
           in if offset < length attributedBody then
                (case read_length attributedBody offset of
                   (textLength, offset) \<Rightarrow>
                     if textLength > 0 \<and> offset + textLength \<le> length attributedBody then
                       (let textBuffer = take textLength (drop offset attributedBody);
                            extractedText = utf8 e textBuffer;
                            cleaned = trim (strip_trailing_garbage extractedText)
                        in if length cleaned > 0 \<and> \<not> only_control cleaned then JStr cleaned
                           else JNull)
                     else JNull)
              else JNull))"

text \<open>
  The offset of the length field for a marker found at \<open>markerIndex\<close>: behind the marker,
  the four header bytes and the type tag when it is there, as \<open>typedstream_text\<close> computes it.
\<close>

definition length_field_offset :: "byte list \<Rightarrow> nat \<Rightarrow> nat" where
  "length_field_offset attributedBody markerIndex =
     (let offset = markerIndex + length nsStringMarker + 4
      in if offset < length attributedBody \<and> attributedBody ! offset = 0x2b then offset + 1
         else offset)"

definition extractTextFromAttributedBody :: "env \<Rightarrow> byte list option \<Rightarrow> jsval" where
  "extractTextFromAttributedBody e attributedBody =
     (case attributedBody of
        None \<Rightarrow> JNull
      | Some buf \<Rightarrow>
          if length buf < 8 then JNull
          else (case (if isBplist buf then bplist_try e buf else Inr None) of
                  Inr (Some v) \<Rightarrow> v
                | Inr None \<Rightarrow> typedstream_text e buf
                | Inl err \<Rightarrow> typedstream_text e buf))"

section \<open>The source database\<close>

text \<open>
  The tables of the foreign schema that the reader queries, each as the list of its rows in
  storage order, with the columns the queries name. A nullable column is an \<open>option\<close>. The
  flag columns of \<^verbatim>\<open>message\<close> and \<^verbatim>\<open>attachment\<close> are integers (the schema defaults them
  to 0).
\<close>

record chat_row =
  c_ROWID :: int
  c_chat_identifier :: "string option"
  c_display_name :: "string option"
  c_group_id :: "string option"

record message_row =
  m_ROWID :: int
  m_guid :: "string option"
  m_text :: "string option"
  m_attributedBody :: "byte list option"
  m_handle_id :: "int option"
  m_service :: "string option"
  m_date :: "int option"
  m_date_read :: "int option"
  m_date_delivered :: "int option"
  m_is_from_me :: int
  m_is_read :: int
  m_is_sent :: int
  m_is_delivered :: int
  m_cache_has_attachments :: int
  m_associated_message_guid :: "string option"
  m_associated_message_type :: "int option"
  m_expressive_send_style_id :: "string option"

record handle_row =
  h_ROWID :: int
  h_id :: string
  h_service :: "string option"

record attachment_row =
  a_ROWID :: int
  a_filename :: "string option"
  a_mime_type :: "string option"
  a_total_bytes :: "int option"
  a_transfer_name :: "string option"
  a_is_sticker :: int
  a_hide_attachment :: int

record db =
  chat :: "chat_row list"
  message :: "message_row list"
  handle :: "handle_row list"
  attachment :: "attachment_row list"
  chat_message_join :: "(int \<times> int) list"
  chat_handle_join :: "(int \<times> int) list"
  message_attachment_join :: "(int \<times> int) list"

text \<open>
  The join tables are lists of pairs: (chat id, message id), (chat id, handle id) and
  (message id, attachment id).

  A row of the message queries: the message columns and \<^verbatim>\<open>sender_identifier\<close> from the
  left join with \<^verbatim>\<open>handle\<close>.
\<close>

type_synonym row = "message_row \<times> string option"

section \<open>The domain model (shared-types/types.ts)\<close>

record Contact =
  ct_id :: string
  ct_displayName :: string
  ct_handleIdentifier :: string
  ct_phoneNumber :: "string option"
  ct_email :: "string option"
  ct_isMe :: bool

record Reaction =
  rx_type :: ReactionType
  rx_senderId :: string
  rx_senderName :: string
  rx_isFromMe :: bool

record Attachment =
  att_id :: string
  att_messageId :: string
  att_filename :: string
  att_mimeType :: string
  att_totalBytes :: int
  att_transferName :: string
  att_filePath :: string
  att_isSticker :: bool
  att_hideAttachment :: bool

text \<open>
  The declared type of \<^verbatim>\<open>text\<close> is \<^verbatim>\<open>string | null\<close>; the field holds whatever
  \<^verbatim>\<open>mapRowToMessage\<close> stores in it, a \<open>jsval\<close>.
\<close>

record Message =
  msg_id :: string
  msg_conversationId :: string
  msg_text :: jsval
  msg_senderId :: string
  msg_senderName :: string
  msg_timestamp :: int
  msg_isFromMe :: bool
  msg_isRead :: bool
  msg_isSent :: bool
  msg_isDelivered :: bool
  msg_attachments :: "Attachment list"
  msg_reactions :: "Reaction list"
  msg_associatedMessageGuid :: "string option"
  msg_associatedMessageType :: "int option"
  msg_expressiveSendStyleId :: "string option"

record Conversation =
  cv_id :: string
  cv_displayName :: string
  cv_participants :: "Contact list"
  cv_lastMessage :: "Message option"
  cv_unreadCount :: int
  cv_isGroup :: bool
  cv_groupPhotoPath :: "string option"

record MessagesPage =
  messages :: "Message list"
  hasMore :: bool

section \<open>Relational assembler (database.ts, lines 151-480)\<close>

subsection \<open>Helpers\<close>

text \<open>\<^verbatim>\<open>x || ''\<close> and \<^verbatim>\<open>x || undefined\<close> on a nullable string or integer column.\<close>

definition or_empty :: "string option \<Rightarrow> string" where
  "or_empty x = (case x of None \<Rightarrow> [] | Some s \<Rightarrow> s)"

definition string_or_undefined :: "string option \<Rightarrow> string option" where
  "string_or_undefined x = (case x of None \<Rightarrow> None | Some s \<Rightarrow> if s = [] then None else Some s)"

definition int_or_undefined :: "int option \<Rightarrow> int option" where
  "int_or_undefined x = (case x of None \<Rightarrow> None | Some n \<Rightarrow> if n = 0 then None else Some n)"

definition formatHandleIdentifier :: "env \<Rightarrow> string \<Rightarrow> string" where
  "formatHandleIdentifier e identifier =
     (if identifier = [] then ''Unknown''
      else
        (case (case contactsResolver e of
                 None \<Rightarrow> None
               | Some resolve \<Rightarrow> string_or_undefined (resolve identifier)) of
           Some contactName \<Rightarrow> contactName
         | None \<Rightarrow>
             if includes_char identifier CHR ''@'' then identifier
             else
               (let cleaned = filter is_digit identifier
                in if length cleaned = 10 then
                     ''('' @ take 3 cleaned @ '') '' @ take 3 (drop 3 cleaned) @ ''-'' @ drop 6 cleaned
                   else if length cleaned = 11 \<and> cleaned ! 0 = CHR ''1'' then
                     ''+1 ('' @ take 3 (drop 1 cleaned) @ '') '' @ take 3 (drop 4 cleaned) @ ''-''
                       @ drop 7 cleaned
                   else identifier)))"

definition generateDisplayName :: "Contact list \<Rightarrow> string" where
  "generateDisplayName participants =
     (if length participants = 0 then ''Unknown''
      else if length participants = 1 then ct_displayName (participants ! 0)
      else if length participants = 2 then
        ct_displayName (participants ! 0) @ '', '' @ ct_displayName (participants ! 1)
      else ct_displayName (participants ! 0) @ '' and ''
             @ String_of_int (int (length participants) - 1) @ '' others'')"

subsection \<open>SQL building blocks\<close>

text \<open>
  \<^verbatim>\<open>ORDER BY m.date DESC\<close>: descending, a NULL date after every other (in \<open>int option\<close>,
  \<open>None\<close> is below every \<open>Some\<close>). Rows with equal dates come in an order the engine
  chooses; the model fixes one.
\<close>

definition order_by_date_desc :: "row list \<Rightarrow> row list" where
  "order_by_date_desc rows = rev (sort_key (\<lambda>r. m_date (fst r)) rows)"

text \<open>\<^verbatim>\<open>LIMIT k\<close>: a negative \<open>k\<close> is no limit.\<close>

definition sql_limit :: "int \<Rightarrow> 'a list \<Rightarrow> 'a list" where
  "sql_limit k xs = (if k < 0 then xs else take (nat k) xs)"

text \<open>\<^verbatim>\<open>xs.slice(0, k)\<close>: a negative \<open>k\<close> counts from the end.\<close>

definition slice0 :: "int \<Rightarrow> 'a list \<Rightarrow> 'a list" where
  "slice0 k xs = (if k < 0 then take (nat (int (length xs) + k)) xs else take (nat k) xs)"

text \<open>\<^verbatim>\<open>MAX(m.date)\<close>: NULL values do not count, and no value gives NULL.\<close>

definition sql_max :: "int option list \<Rightarrow> int option" where
  "sql_max xs = fold max xs None"

text \<open>
  The left join with \<^verbatim>\<open>handle\<close>: the identifier of every handle whose row id is the
  message's \<^verbatim>\<open>handle_id\<close>, or one NULL when there is none.
\<close>

definition sender_identifiers :: "db \<Rightarrow> message_row \<Rightarrow> string option list" where
  "sender_identifiers d m =
     (case [h_id h. h \<leftarrow> handle d, Some (h_ROWID h) = m_handle_id m] of
        [] \<Rightarrow> [None]
      | hs \<Rightarrow> map Some hs)"

text \<open>
  \<^verbatim>\<open>FROM message m LEFT JOIN handle h ON m.handle_id = h.ROWID
  JOIN chat_message_join cmj ON cmj.message_id = m.ROWID WHERE cmj.chat_id = ?\<close>
\<close>

definition message_rows :: "db \<Rightarrow> int \<Rightarrow> row list" where
  "message_rows d chatId =
     [(m, s). m \<leftarrow> message d, s \<leftarrow> sender_identifiers d m, j \<leftarrow> chat_message_join d,
              snd j = m_ROWID m \<and> fst j = chatId]"

text \<open>
  \<^verbatim>\<open>FROM chat_message_join cmj JOIN message m ON cmj.message_id = m.ROWID
  WHERE cmj.chat_id = c.ROWID\<close>, the rows both subqueries of the conversation queries range over.
\<close>

definition chat_messages :: "db \<Rightarrow> int \<Rightarrow> message_row list" where
  "chat_messages d chatId =
     [m. j \<leftarrow> chat_message_join d, m \<leftarrow> message d, snd j = m_ROWID m \<and> fst j = chatId]"

definition unread_count :: "db \<Rightarrow> int \<Rightarrow> int" where
  "unread_count d chatId =
     int (length [m \<leftarrow> chat_messages d chatId. m_is_read m = 0 \<and> m_is_from_me m = 0])"

definition last_message_date :: "db \<Rightarrow> int \<Rightarrow> int option" where
  "last_message_date d chatId = sql_max (map m_date (chat_messages d chatId))"

subsection \<open>Participants and attachments\<close>

definition getChatParticipants :: "env \<Rightarrow> db \<Rightarrow> int \<Rightarrow> Contact list" where
  "getChatParticipants e d chatId =
     map (\<lambda>h. \<lparr> ct_id = String_of_int (h_ROWID h),
                ct_displayName = formatHandleIdentifier e (h_id h),
                ct_handleIdentifier = h_id h,
                ct_phoneNumber = (if h_service h = Some ''SMS'' then Some (h_id h) else None),
                ct_email = (if h_service h = Some ''iMessage'' \<and> includes_char (h_id h) CHR ''@''
                            then Some (h_id h) else None),
                ct_isMe = False \<rparr>)
       [h. h \<leftarrow> handle d, j \<leftarrow> chat_handle_join d, snd j = h_ROWID h \<and> fst j = chatId]"

definition getMessageAttachments :: "db \<Rightarrow> int \<Rightarrow> Attachment list" where
  "getMessageAttachments d messageId =
     map (\<lambda>a. \<lparr> att_id = String_of_int (a_ROWID a),
                att_messageId = String_of_int messageId,
                att_filename = or_empty (a_filename a),
                att_mimeType = or_empty (a_mime_type a),
                att_totalBytes = (case a_total_bytes a of None \<Rightarrow> 0 | Some n \<Rightarrow> n),
                att_transferName = or_empty (a_transfer_name a),
                att_filePath = or_empty (a_filename a),
                att_isSticker = Boolean_of_int (a_is_sticker a),
                att_hideAttachment = Boolean_of_int (a_hide_attachment a) \<rparr>)
       [a. a \<leftarrow> attachment d, j \<leftarrow> message_attachment_join d,
           snd j = a_ROWID a \<and> fst j = messageId]"

subsection \<open>Rows to messages\<close>

definition appleEpoch :: rat where
  "appleEpoch = 978307200000"

text \<open>
  \<^verbatim>\<open>row.date ? appleEpoch + row.date / 1000000 : Date.now()\<close>, then \<^verbatim>\<open>Math.floor\<close>.
  \<^verbatim>\<open>row.date\<close> is the number the driver delivers for the integer column; it is falsy when
  the column is NULL or the number is 0.
\<close>

definition row_timestamp :: "env \<Rightarrow> int option \<Rightarrow> int" where
  "row_timestamp e date_column =
     Math_floor
       (case date_column of
          None \<Rightarrow> of_int (now e)
        | Some t \<Rightarrow>
            (let date = Number_of_int64 t
             in if date = 0 then of_int (now e)
                else js_add appleEpoch (js_div date 1000000)))"

definition row_senderId :: "message_row \<Rightarrow> string" where
  "row_senderId m =
     (if Boolean_of_int (m_is_from_me m) then ''me''
      else (case int_or_undefined (m_handle_id m) of
              None \<Rightarrow> ''unknown''
            | Some h \<Rightarrow> String_of_int h))"

definition row_senderName :: "env \<Rightarrow> row \<Rightarrow> string" where
  "row_senderName e r =
     (if Boolean_of_int (m_is_from_me (fst r)) then ''Me''
      else formatHandleIdentifier e
             (case string_or_undefined (snd r) of None \<Rightarrow> ''Unknown'' | Some s \<Rightarrow> s))"

definition row_text :: "env \<Rightarrow> message_row \<Rightarrow> jsval" where
  "row_text e m =
     (let messageText = (case m_text m of None \<Rightarrow> JNull | Some s \<Rightarrow> JStr s);
          messageText =
            (if \<not> truthy messageText \<and> m_attributedBody m \<noteq> None
             then extractTextFromAttributedBody e (m_attributedBody m)
             else messageText)
      in if truthy messageText then messageText else JStr [])"

definition mapRowToMessage :: "env \<Rightarrow> db \<Rightarrow> row \<Rightarrow> string \<Rightarrow> Message" where
  "mapRowToMessage e d r conversationId =
     (let m = fst r
      in \<lparr> msg_id = (case string_or_undefined (m_guid m) of
                        None \<Rightarrow> String_of_int (m_ROWID m)
                      | Some g \<Rightarrow> g),
            msg_conversationId = conversationId,
            msg_text = row_text e m,
            msg_senderId = row_senderId m,
            msg_senderName = row_senderName e r,
            msg_timestamp = row_timestamp e (m_date m),
            msg_isFromMe = Boolean_of_int (m_is_from_me m),
            msg_isRead = Boolean_of_int (m_is_read m),
            msg_isSent = Boolean_of_int (m_is_sent m),
            msg_isDelivered = Boolean_of_int (m_is_delivered m),
            msg_attachments =
              (if Boolean_of_int (m_cache_has_attachments m)
               then getMessageAttachments d (m_ROWID m) else []),
            msg_reactions = [],
            msg_associatedMessageGuid = string_or_undefined (m_associated_message_guid m),
            msg_associatedMessageType = int_or_undefined (m_associated_message_type m),
            msg_expressiveSendStyleId = string_or_undefined (m_expressive_send_style_id m) \<rparr>)"

subsection \<open>The target of a reaction\<close>

text \<open>
  \<^verbatim>\<open>parentGuid.match(/(?:p:\d+\/|bp:)?(.+)/)\<close>. The pattern is not anchored: the first
  position where it matches counts. At a position, the optional prefix is tried first,
  and given up when no character is left for the group after it; the group \<^verbatim>\<open>(.+)\<close>
  takes every character up to the next line terminator.
\<close>

definition is_line_terminator :: "char \<Rightarrow> bool" where
  "is_line_terminator c = (of_char c = (10::nat) \<or> of_char c = (13::nat))"

definition dot_plus :: "string \<Rightarrow> string option" where
  "dot_plus s =
     (let g = takeWhile (\<lambda>c. \<not> is_line_terminator c) s in if g = [] then None else Some g)"

definition numbered_prefix :: "string \<Rightarrow> string option" where
  "numbered_prefix s =
     (if prefix ''p:'' s then
        (let ds = takeWhile is_digit (drop 2 s); rest = dropWhile is_digit (drop 2 s)
         in if ds \<noteq> [] \<and> prefix ''/'' rest then Some (drop 1 rest) else None)
      else None)"

definition short_prefix :: "string \<Rightarrow> string option" where
  "short_prefix s = (if prefix ''bp:'' s then Some (drop 3 s) else None)"

definition match_at :: "string \<Rightarrow> string option" where
  "match_at s =
     (case (case numbered_prefix s of Some rest \<Rightarrow> Some rest | None \<Rightarrow> short_prefix s) of
        Some rest \<Rightarrow> (case dot_plus rest of Some g \<Rightarrow> Some g | None \<Rightarrow> dot_plus s)
      | None \<Rightarrow> dot_plus s)"

fun match_first :: "string \<Rightarrow> string option" where
  "match_first [] = None"
| "match_first (c # cs) =
     (case match_at (c # cs) of Some g \<Rightarrow> Some g | None \<Rightarrow> match_first cs)"

definition parentGuidOf :: "string \<Rightarrow> string" where
  "parentGuidOf associated_message_guid =
     (case match_first associated_message_guid of
        Some g \<Rightarrow> g
      | None \<Rightarrow> associated_message_guid)"

subsection \<open>getMessages\<close>

definition reactionOfRow :: "env \<Rightarrow> row \<Rightarrow> ReactionType \<Rightarrow> Reaction" where
  "reactionOfRow e r reactionType =
     \<lparr> rx_type = reactionType,
        rx_senderId = row_senderId (fst r),
        rx_senderName = row_senderName e r,
        rx_isFromMe = Boolean_of_int (m_is_from_me (fst r)) \<rparr>"

text \<open>
  One turn of the loop over the reaction rows; \<^verbatim>\<open>continue\<close> leaves the map as it is.
  A reaction row has a type, so the \<open>None\<close> case is only there to make the function total:
  \<^verbatim>\<open>getReactionType(null)\<close> is \<^verbatim>\<open>null\<close>.
\<close>

definition addReaction :: "env \<Rightarrow> row \<Rightarrow> (string \<rightharpoonup> Reaction list) \<Rightarrow> (string \<rightharpoonup> Reaction list)" where
  "addReaction e r reactionsMap =
     (case (string_or_undefined (m_associated_message_guid (fst r)),
            m_associated_message_type (fst r)) of
        (Some guid, Some t) \<Rightarrow>
          if isRemoveReaction t then reactionsMap
          else
            (let parentGuid = parentGuidOf guid
             in case getReactionType t of
                  None \<Rightarrow> reactionsMap
                | Some reactionType \<Rightarrow>
                    (let existing = (case reactionsMap parentGuid of None \<Rightarrow> [] | Some rs \<Rightarrow> rs)
                     in reactionsMap(parentGuid \<mapsto> existing @ [reactionOfRow e r reactionType])))
      | _ \<Rightarrow> reactionsMap)"

definition buildReactionsMap :: "env \<Rightarrow> row list \<Rightarrow> (string \<rightharpoonup> Reaction list)" where
  "buildReactionsMap e reactionRows = fold (addReaction e) reactionRows Map.empty"

text \<open>The body of \<^verbatim>\<open>messageRows.slice(0, limit).map(...)\<close>.\<close>

definition attachReactions ::
    "env \<Rightarrow> db \<Rightarrow> string \<Rightarrow> (string \<rightharpoonup> Reaction list) \<Rightarrow> row \<Rightarrow> Message" where
  "attachReactions e d conversationId reactionsMap r =
     (mapRowToMessage e d r conversationId)
       \<lparr> msg_reactions :=
           (case m_guid (fst r) of
              None \<Rightarrow> []
            | Some g \<Rightarrow> (case reactionsMap g of None \<Rightarrow> [] | Some rs \<Rightarrow> rs)) \<rparr>"

text \<open>
  The rows of the query: the conversation's rows, dated before the cursor when there is one
  (\<^verbatim>\<open>if (before)\<close> is false for 0 too; a NULL date is before nothing), newest first, cut
  at \<^verbatim>\<open>(limit + 1) * 3\<close>.
\<close>

definition rows_of_conversation :: "env \<Rightarrow> db \<Rightarrow> string \<Rightarrow> row list" where
  "rows_of_conversation e d conversationId =
     (case bind_rowid e conversationId of None \<Rightarrow> [] | Some chatId \<Rightarrow> message_rows d chatId)"

definition before_cursor :: "int option \<Rightarrow> row \<Rightarrow> bool" where
  "before_cursor before r =
     (case int_or_undefined before of
        None \<Rightarrow> True
      | Some b \<Rightarrow> (case m_date (fst r) of None \<Rightarrow> False | Some t \<Rightarrow> t < b))"

definition fetch_rows :: "env \<Rightarrow> db \<Rightarrow> string \<Rightarrow> int \<Rightarrow> int option \<Rightarrow> row list" where
  "fetch_rows e d conversationId limit before =
     sql_limit ((limit + 1) * 3)
       (order_by_date_desc (filter (before_cursor before) (rows_of_conversation e d conversationId)))"

definition is_reaction_row :: "row \<Rightarrow> bool" where
  "is_reaction_row r = isReactionMessage (m_associated_message_type (fst r))"

definition getMessages ::
    "env \<Rightarrow> db \<Rightarrow> string \<Rightarrow> int option \<Rightarrow> int option \<Rightarrow> MessagesPage" where
  "getMessages e d conversationId limit_arg before =
     (let limit = (case limit_arg of None \<Rightarrow> 100 | Some l \<Rightarrow> l);
          rows = fetch_rows e d conversationId limit before;
          reactionRows = filter is_reaction_row rows;
          messageRows = filter (\<lambda>r. \<not> is_reaction_row r) rows;
          reactionsMap = buildReactionsMap e reactionRows;
          hasMore = (int (length messageRows) > limit);
          messages = map (attachReactions e d conversationId reactionsMap) (slice0 limit messageRows)
      in \<lparr> messages = rev messages, hasMore = hasMore \<rparr>)"

subsection \<open>Conversations\<close>

text \<open>
  \<^verbatim>\<open>getLastMessageForChat\<close>: the newest row whose association type is NULL, below 2000 or
  above 3005.
\<close>

definition getLastMessageForChat :: "env \<Rightarrow> db \<Rightarrow> int \<Rightarrow> Message option" where
  "getLastMessageForChat e d chatId =
     (case sql_limit 1
             (order_by_date_desc
                [r \<leftarrow> message_rows d chatId.
                   (case m_associated_message_type (fst r) of
                      None \<Rightarrow> True
                    | Some t \<Rightarrow> t < 2000 \<or> t > 3005)]) of
        [] \<Rightarrow> None
      | r # _ \<Rightarrow> Some (mapRowToMessage e d r (String_of_int chatId)))"

text \<open>
  The object that \<^verbatim>\<open>getConversations\<close> and \<^verbatim>\<open>getConversation\<close> both build from a row of
  their query; \<^verbatim>\<open>row.unread_count || 0\<close> is the count itself.
\<close>

definition conversationOfRow :: "env \<Rightarrow> db \<Rightarrow> chat_row \<Rightarrow> Conversation" where
  "conversationOfRow e d c =
     (let participants = getChatParticipants e d (c_ROWID c);
          lastMessage = getLastMessageForChat e d (c_ROWID c)
      in \<lparr> cv_id = String_of_int (c_ROWID c),
            cv_displayName = (case string_or_undefined (c_display_name c) of
                                None \<Rightarrow> generateDisplayName participants
                              | Some n \<Rightarrow> n),
            cv_participants = participants,
            cv_lastMessage = lastMessage,
            cv_unreadCount = unread_count d (c_ROWID c),
            cv_isGroup = (length participants > 2),
            cv_groupPhotoPath = None \<rparr>)"

text \<open>
  \<^verbatim>\<open>FROM chat c WHERE last_message_date IS NOT NULL ORDER BY last_message_date DESC\<close>
\<close>

definition conversation_rows :: "db \<Rightarrow> chat_row list" where
  "conversation_rows d =
     rev (sort_key (\<lambda>c. last_message_date d (c_ROWID c))
            [c \<leftarrow> chat d. last_message_date d (c_ROWID c) \<noteq> None])"

definition getConversations :: "env \<Rightarrow> db \<Rightarrow> Conversation list" where
  "getConversations e d = map (conversationOfRow e d) (conversation_rows d)"

text \<open>
  \<^verbatim>\<open>FROM chat c WHERE c.ROWID = ?\<close> with \<^verbatim>\<open>.get\<close>: the first row, or \<^verbatim>\<open>undefined\<close>.
\<close>

definition getConversation :: "env \<Rightarrow> db \<Rightarrow> string \<Rightarrow> Conversation option" where
  "getConversation e d conversationId =
     (case [c \<leftarrow> chat d. Some (c_ROWID c) = bind_rowid e conversationId] of
        [] \<Rightarrow> None
      | c # _ \<Rightarrow> Some (conversationOfRow e d c))"

section \<open>Reaction folding, as the specification words it\<close>

text \<open>
  The association id of a reaction row names its target: the target's identifier, bare or
  behind a numbered prefix (\<^verbatim>\<open>p:\<close>, one or more digits, \<^verbatim>\<open>/\<close>) or the short prefix
  \<^verbatim>\<open>bp:\<close>. Stripping removes such a prefix. An association id is plain when what is left
  once the prefix is stripped is not empty and holds no line break; a row is plain unless
  it is an add-reaction row (type 2000 .. 2005) with a non-empty association id that is
  not plain.
\<close>

definition strip_association_prefix :: "string \<Rightarrow> string" where
  "strip_association_prefix s =
     (let digits = takeWhile is_digit (drop 2 s)
      in if take 2 s = ''p:'' \<and> digits \<noteq> [] \<and> take 1 (drop (2 + length digits) s) = ''/''
         then drop (3 + length digits) s
         else if take 3 s = ''bp:'' then drop 3 s
         else s)"

definition plain_association_id :: "string \<Rightarrow> bool" where
  "plain_association_id s =
     (strip_association_prefix s \<noteq> [] \<and>
      list_all (\<lambda>c. \<not> is_line_terminator c) (strip_association_prefix s))"

definition plain_row :: "row \<Rightarrow> bool" where
  "plain_row r =
     (case (m_associated_message_guid (fst r), m_associated_message_type (fst r)) of
        (Some a, Some t) \<Rightarrow>
          (if a \<noteq> [] \<and> 2000 \<le> t \<and> t \<le> 2005 then plain_association_id a else True)
      | _ \<Rightarrow> True)"

text \<open>
  A row adds a reaction to the message with identifier \<open>g\<close> when its association type is
  an add code (2000 .. 2005) and its association id, which is present and not empty, is \<open>g\<close>
  once the prefix is stripped. The reactions of a message are the entries of the rows that
  add a reaction to its identifier, in the order of the rows, each with the type that the
  six-entry table gives its code; a message without identifier has none.
\<close>

definition adds_reaction_to :: "string \<Rightarrow> row \<Rightarrow> bool" where
  "adds_reaction_to g r =
     (case (m_associated_message_guid (fst r), m_associated_message_type (fst r)) of
        (Some a, Some t) \<Rightarrow>
          a \<noteq> [] \<and> 2000 \<le> t \<and> t \<le> 2005 \<and> strip_association_prefix a = g
      | _ \<Rightarrow> False)"

definition reaction_entry :: "env \<Rightarrow> row \<Rightarrow> Reaction" where
  "reaction_entry e r =
     reactionOfRow e r (the (REACTION_TYPE_MAP (the (m_associated_message_type (fst r)))))"

definition attached_reactions :: "env \<Rightarrow> row list \<Rightarrow> string option \<Rightarrow> Reaction list" where
  "attached_reactions e rows guid =
     (case guid of
        None \<Rightarrow> []
      | Some g \<Rightarrow> map (reaction_entry e) (filter (adds_reaction_to g) rows))"

section \<open>Reading the reactions map\<close>

text \<open>
  \<^verbatim>\<open>reactionsMap.get(g) || []\<close>, and the rows that \<open>addReaction\<close> files under the key \<open>g\<close>:
  those that pass its two \<^verbatim>\<open>continue\<close> guards with \<^verbatim>\<open>parentGuid\<close> equal to \<open>g\<close>.
\<close>

definition entries :: "(string \<rightharpoonup> Reaction list) \<Rightarrow> string \<Rightarrow> Reaction list" where
  "entries mp g = (case mp g of None \<Rightarrow> [] | Some rs \<Rightarrow> rs)"

definition filed_under :: "string \<Rightarrow> row \<Rightarrow> bool" where
  "filed_under g r =
     (case (string_or_undefined (m_associated_message_guid (fst r)),
            m_associated_message_type (fst r)) of
        (Some a, Some t) \<Rightarrow>
          \<not> isRemoveReaction t \<and> getReactionType t \<noteq> None \<and> parentGuidOf a = g
      | _ \<Rightarrow> False)"

section \<open>Sample data\<close>

text \<open>
  Concrete collaborators and buffers at which the theorems below are evaluated.
  \<open>sample_bplist\<close> is the binary property list of the dictionary \<^verbatim>\<open>{NSString: 5}\<close>
  (header, a one-entry dictionary, the key string, the integer 5, the offset table and the
  trailer); the sample parser returns that dictionary for it and raises on every other
  buffer. \<open>sample_typedstream\<close> holds the marker, the four header bytes, the type tag, the
  length 2 and the text \<^verbatim>\<open>Hi\<close>; \<open>malformed_bplist\<close> is the same behind the six magic bytes, too
  short to be a property list; \<open>truncated_length\<close> ends inside a two-byte length field.
\<close>

definition ascii_utf8 :: "byte list \<Rightarrow> string" where
  "ascii_utf8 bs = map (\<lambda>b. char_of (unat b)) bs"

definition sample_bplist :: "byte list" where
  "sample_bplist =
     [98, 112, 108, 105, 115, 116, 48, 48, 209, 1, 2, 88, 78, 83, 83, 116, 114, 105, 110, 103,
      16, 5, 8, 11, 20, 0, 0, 0, 0, 0, 0, 1, 1, 0, 0, 0, 0, 0, 0, 0, 3, 0, 0, 0, 0, 0, 0, 0, 0,
      0, 0, 0, 0, 0, 0, 0, 22]"

definition sample_typedstream :: "byte list" where
  "sample_typedstream =
     [4, 11, 0x4e, 0x53, 0x53, 0x74, 0x72, 0x69, 0x6e, 0x67, 1, 0x94, 0x84, 1, 0x2b, 2, 0x48,
      0x69, 0x86]"

definition malformed_bplist :: "byte list" where
  "malformed_bplist = bplist_magic @ sample_typedstream"

definition truncated_length :: "byte list" where
  "truncated_length =
     [4, 11, 0x4e, 0x53, 0x53, 0x74, 0x72, 0x69, 0x6e, 0x67, 1, 0x94, 0x84, 1, 0x2b, 0x82, 0x01]"

fun decimal_value :: "string \<Rightarrow> nat \<Rightarrow> nat option" where
  "decimal_value [] acc = Some acc"
| "decimal_value (c # cs) acc =
     (if is_digit c then decimal_value cs (10 * acc + (of_char c - 48)) else None)"

definition decimal_rowid :: "string \<Rightarrow> int option" where
  "decimal_rowid s = (if s = [] then None else map_option int (decimal_value s 0))"

definition sample_env :: env where
  "sample_env =
     \<lparr> now = 1700000000000,
        parseBuffer = (\<lambda>buf. if buf = sample_bplist then Inr [JObj [(''NSString'', JNum 5)]]
                             else Inl ParseError),
        utf8 = ascii_utf8,
        contactsResolver = None,
        bind_rowid = decimal_rowid \<rparr>"

text \<open>
  A database with three conversations. Conversation 1 holds the messages A (dated 10 ms
  after the reference epoch) and C (20 ms, from me, without text), the love reaction B to A
  (100 ms) and the removed like E of A (30 ms); conversation 2 holds the message D (50 ms);
  conversation 3 holds nothing. \<open>crowded_db\<close> has one conversation with a single message
  and six later reactions to it.
\<close>

definition blank_message :: message_row where
  "blank_message =
     \<lparr> m_ROWID = 0, m_guid = None, m_text = None, m_attributedBody = None, m_handle_id = None,
        m_service = None, m_date = None, m_date_read = None, m_date_delivered = None,
        m_is_from_me = 0, m_is_read = 0, m_is_sent = 0, m_is_delivered = 0,
        m_cache_has_attachments = 0, m_associated_message_guid = None,
        m_associated_message_type = None, m_expressive_send_style_id = None \<rparr>"

definition row_A :: message_row where
  "row_A = blank_message \<lparr> m_ROWID := 1, m_guid := Some ''A'', m_text := Some ''hi'',
             m_handle_id := Some 1, m_date := Some 10000000 \<rparr>"

definition row_B :: message_row where
  "row_B = blank_message \<lparr> m_ROWID := 2, m_guid := Some ''B'', m_handle_id := Some 1,
             m_date := Some 100000000, m_associated_message_guid := Some ''p:0/A'',
             m_associated_message_type := Some 2000 \<rparr>"

definition row_C :: message_row where
  "row_C = blank_message \<lparr> m_ROWID := 3, m_guid := Some ''C'', m_date := Some 20000000,
             m_is_from_me := 1, m_is_read := 1 \<rparr>"

definition row_D :: message_row where
  "row_D = blank_message \<lparr> m_ROWID := 4, m_guid := Some ''D'', m_text := Some ''yo'',
             m_handle_id := Some 2, m_date := Some 50000000 \<rparr>"

definition row_E :: message_row where
  "row_E = blank_message \<lparr> m_ROWID := 5, m_guid := Some ''E'', m_handle_id := Some 1,
             m_date := Some 30000000, m_associated_message_guid := Some ''bp:A'',
             m_associated_message_type := Some 3001 \<rparr>"

definition sample_db :: db where
  "sample_db =
     \<lparr> chat =
          [\<lparr> c_ROWID = 1, c_chat_identifier = Some ''+15551234567'', c_display_name = None,
              c_group_id = None \<rparr>,
           \<lparr> c_ROWID = 2, c_chat_identifier = Some ''bob@example.com'', c_display_name = None,
              c_group_id = None \<rparr>,
           \<lparr> c_ROWID = 3, c_chat_identifier = Some ''chat3'', c_display_name = Some ''Empty'',
              c_group_id = None \<rparr>],
        message = [row_A, row_B, row_C, row_D, row_E],
        handle =
          [\<lparr> h_ROWID = 1, h_id = ''+15551234567'', h_service = Some ''iMessage'' \<rparr>,
           \<lparr> h_ROWID = 2, h_id = ''bob@example.com'', h_service = Some ''iMessage'' \<rparr>],
        attachment = [],
        chat_message_join = [(1, 1), (1, 2), (1, 3), (2, 4), (1, 5)],
        chat_handle_join = [(1, 1), (2, 2)],
        message_attachment_join = [] \<rparr>"

definition crowd_reaction :: "int \<Rightarrow> message_row" where
  "crowd_reaction i =
     blank_message \<lparr> m_ROWID := i, m_date := Some (i * 1000000),
       m_associated_message_guid := Some ''A'', m_associated_message_type := Some 2000 \<rparr>"

definition crowded_db :: db where
  "crowded_db =
     \<lparr> chat = [\<lparr> c_ROWID = 1, c_chat_identifier = None, c_display_name = None,
                  c_group_id = None \<rparr>],
        message = row_A \<lparr> m_date := Some 1000000 \<rparr> # map crowd_reaction [2, 3, 4, 5, 6, 7],
        handle = [],
        attachment = [],
        chat_message_join = map (\<lambda>i. (1, i)) [1, 2, 3, 4, 5, 6, 7],
        chat_handle_join = [],
        message_attachment_join = [] \<rparr>"

text \<open>
  \<open>folding_db\<close>: one conversation with the message A (10 ms) and five later reactions to
  it: a love behind \<^verbatim>\<open>p:0/\<close>, a like behind \<^verbatim>\<open>bp:\<close>, a dislike behind \<^verbatim>\<open>p:12/\<close>, a laugh
  with the bare identifier, and a removed emphasis.
\<close>

definition reaction_row :: "int \<Rightarrow> string \<Rightarrow> int \<Rightarrow> message_row" where
  "reaction_row i association code =
     blank_message \<lparr> m_ROWID := i, m_handle_id := Some 1, m_date := Some (i * 10000000),
       m_associated_message_guid := Some association, m_associated_message_type := Some code \<rparr>"

definition folding_db :: db where
  "folding_db =
     \<lparr> chat = [\<lparr> c_ROWID = 1, c_chat_identifier = None, c_display_name = None,
                  c_group_id = None \<rparr>],
        message =
          [row_A, reaction_row 2 ''p:0/A'' 2000, reaction_row 3 ''bp:A'' 2001,
           reaction_row 4 ''p:12/A'' 2002, reaction_row 5 ''A'' 2003,
           reaction_row 6 ''p:0/A'' 3004],
        handle = [],
        attachment = [],
        chat_message_join = map (\<lambda>i. (1, i)) [1, 2, 3, 4, 5, 6],
        chat_handle_join = [],
        message_attachment_join = [] \<rparr>"

text \<open>
  \<open>odd_db\<close>: one conversation with the messages A (10 ms) and \<^verbatim>\<open>bp:\<close> (15 ms), a love whose
  association id is the bare prefix \<^verbatim>\<open>bp:\<close>, and a like whose association id is A, a line
  feed and B.
\<close>

definition odd_db :: db where
  "odd_db =
     \<lparr> chat = [\<lparr> c_ROWID = 1, c_chat_identifier = None, c_display_name = None,
                  c_group_id = None \<rparr>],
        message =
          [row_A, row_A \<lparr> m_ROWID := 2, m_guid := Some ''bp:'', m_date := Some 15000000 \<rparr>,
           reaction_row 3 ''bp:'' 2000,
           reaction_row 4 [CHR ''A'', CHR 0x0A, CHR ''B''] 2001],
        handle = [],
        attachment = [],
        chat_message_join = map (\<lambda>i. (1, i)) [1, 2, 3, 4],
        chat_handle_join = [],
        message_attachment_join = [] \<rparr>"


section \<open>Properties\<close>

subsection \<open>Rounding to a double\<close>

lemma pow2_powi: "pow2 e = 2 powi e"
  by (simp add: pow2_def power_int_def inverse_eq_divide power_one_over)

lemma pow2_pos: "0 < pow2 e"
  by (simp add: pow2_powi)

lemma pow2_add: "pow2 (a + b) = pow2 a * pow2 b"
  by (simp add: pow2_powi power_int_add)

lemma pow2_mono: "a \<le> b \<Longrightarrow> pow2 a \<le> pow2 b"
  by (simp add: pow2_powi power_int_increasing)

lemma pow2_nat: "0 \<le> e \<Longrightarrow> pow2 e = of_int (2 ^ nat e)"
  by (simp add: pow2_def)


lemma pow2_diff: "pow2 (a - b) = pow2 a / pow2 b"
  by (simp add: pow2_powi power_int_diff)

lemma pow2_int_bounds:
  assumes "0 < (a::int)"
  shows "pow2 (bitlen a - 1) \<le> of_int a" and "of_int a < pow2 (bitlen a)"
proof -
  from assms have b1: "1 \<le> bitlen a"
    by (simp add: bitlen_alt_def)
  from bitlen_bounds [OF assms]
  have l: "2 ^ nat (bitlen a - 1) \<le> a" and u: "a < 2 ^ nat (bitlen a)"
    by simp_all
  from l have "rat_of_int (2 ^ nat (bitlen a - 1)) \<le> of_int a"
    by (simp only: of_int_le_iff)
  with b1 show "pow2 (bitlen a - 1) \<le> of_int a"
    by (simp add: pow2_nat)
  from u have "rat_of_int a < of_int (2 ^ nat (bitlen a))"
    by (simp only: of_int_less_iff)
  with b1 show "of_int a < pow2 (bitlen a)"
    by (simp add: pow2_nat)
qed

lemma binade_bounds:
  assumes "0 < x"
  shows "pow2 (binade x) \<le> x" and "x < pow2 (binade x + 1)"
proof -
  obtain a b where q: "quotient_of x = (a, b)"
    by (cases "quotient_of x")
  then have bpos: "0 < b" and xdef: "x = of_int a / of_int b"
    by (simp_all add: quotient_of_denom_pos quotient_of_div)
  with assms have apos: "0 < a"
    by (simp add: zero_less_divide_iff)
  define d where "d = bitlen a - bitlen b"
  note A = pow2_int_bounds [OF apos] and B = pow2_int_bounds [OF bpos]
  have bd: "binade x = (if pow2 d \<le> x then d else d - 1)"
    by (simp add: binade_def q d_def Let_def)
  have up: "x < pow2 (d + 1)"
  proof -
    have "x < pow2 (bitlen a) / pow2 (bitlen b - 1)"
      unfolding xdef using A B apos bpos pow2_pos [of "bitlen b - 1"]
      by (intro frac_less) simp_all
    also have "\<dots> = pow2 (d + 1)"
      by (simp add: d_def pow2_diff [symmetric] algebra_simps)
    finally show ?thesis .
  qed
  have lo: "pow2 (d - 1) \<le> x"
  proof -
    have "pow2 (bitlen a - 1) / pow2 (bitlen b) \<le> x"
      unfolding xdef using A B apos bpos pow2_pos [of "bitlen a - 1"]
      by (intro frac_le) simp_all
    moreover have "pow2 (bitlen a - 1) / pow2 (bitlen b) = pow2 (d - 1)"
      by (simp add: d_def pow2_diff [symmetric] algebra_simps)
    ultimately show ?thesis by simp
  qed
  show "pow2 (binade x) \<le> x"
    using lo by (simp add: bd)
  show "x < pow2 (binade x + 1)"
    using up by (auto simp: bd)
qed

lemma rhe_lower: "of_int j \<le> y \<Longrightarrow> j \<le> round_half_even y"
  by (auto simp: round_half_even_def Let_def le_floor_iff intro: order_trans [where y = "\<lfloor>y\<rfloor>"])

lemma rhe_upper:
  assumes "y \<le> of_int j"
  shows "round_half_even y \<le> j"
proof (cases "y = of_int j")
  case True
  then show ?thesis
    by (simp add: round_half_even_def)
next
  case False
  with assms have "y < of_int j" by simp
  then have "\<lfloor>y\<rfloor> < j"
    by (simp add: floor_less_iff)
  then show ?thesis
    by (simp add: round_half_even_def Let_def)
qed

lemma fl64_minus: "fl64 (- x) = - fl64 x"
  by (simp add: fl64_def Let_def sgn_minus)

lemma fl64_lower_pos:
  assumes "0 < x" and "of_int a \<le> x" and "a < 2 ^ 53"
  shows "of_int a \<le> fl64 x"
proof -
  define e where "e = max (binade \<bar>x\<bar> - 52) (- 1074)"
  define r where "r = round_half_even (x / pow2 e)"
  have fx: "fl64 x = of_int r * pow2 e"
    using assms(1) by (simp add: fl64_def e_def r_def Let_def)
  show ?thesis
  proof (cases "e \<le> 0")
    case True
    then have "pow2 (- e) = of_int (2 ^ nat (- e))"
      by (simp add: pow2_nat)
    moreover have "pow2 (- e) * pow2 e = 1"
      using pow2_add [of "- e" e] by (simp add: pow2_def)
    ultimately have inv: "1 / pow2 e = of_int (2 ^ nat (- e))"
      using pow2_pos [of e] by (simp add: field_simps)
    have "of_int (a * 2 ^ nat (- e)) = of_int a * (1 / pow2 e)"
      unfolding inv by simp
    also have "\<dots> \<le> x / pow2 e"
      using assms(2) pow2_pos [of e] by (simp add: divide_right_mono)
    finally have "a * 2 ^ nat (- e) \<le> r"
      unfolding r_def by (rule rhe_lower)
    then have "rat_of_int (a * 2 ^ nat (- e)) \<le> of_int r"
      by (simp only: of_int_le_iff)
    then have "of_int a * (1 / pow2 e) \<le> rat_of_int r"
      unfolding inv by simp
    then show ?thesis
      unfolding fx using pow2_pos [of e] by (simp add: field_simps)
  next
    case False
    then have e: "e = binade x - 52" and e1: "1 \<le> e"
      using assms(1) by (simp_all add: e_def)
    have "pow2 52 * pow2 e \<le> x"
      using binade_bounds(1) [OF assms(1)] pow2_add [of 52 e] by (simp add: e)
    then have "of_int (2 ^ 52) \<le> x / pow2 e"
      using pow2_pos [of e] by (simp add: pow2_def field_simps)
    then have "2 ^ 52 \<le> r"
      unfolding r_def by (rule rhe_lower)
    then have "rat_of_int (2 ^ 52) \<le> of_int r"
      by (simp only: of_int_le_iff)
    moreover have "2 \<le> pow2 e"
      using pow2_mono [OF e1] by (simp add: pow2_def)
    ultimately have "rat_of_int (2 ^ 52) * 2 \<le> of_int r * pow2 e"
      by (intro mult_mono) simp_all
    moreover have "rat_of_int a < 2 ^ 53"
      using assms(3) by (metis of_int_less_iff of_int_numeral of_int_power)
    ultimately show ?thesis
      unfolding fx by simp
  qed
qed


lemma fl64_upper_pos:
  assumes "0 < x" and "x \<le> of_int a" and "a < 2 ^ 53"
  shows "fl64 x \<le> of_int a"
proof -
  define e where "e = max (binade \<bar>x\<bar> - 52) (- 1074)"
  define r where "r = round_half_even (x / pow2 e)"
  have fx: "fl64 x = of_int r * pow2 e"
    using assms(1) by (simp add: fl64_def e_def r_def Let_def)
  have "rat_of_int a < 2 ^ 53"
    using assms(3) by (metis of_int_less_iff of_int_numeral of_int_power)
  with assms(2) have x53: "x < pow2 53"
    by (simp add: pow2_def)
  have "binade x < 53"
  proof (rule ccontr)
    assume "\<not> binade x < 53"
    then have "pow2 53 \<le> pow2 (binade x)"
      by (intro pow2_mono) simp
    with binade_bounds(1) [OF assms(1)] x53 show False
      by simp
  qed
  then have e0: "e \<le> 0"
    using assms(1) by (simp add: e_def)
  then have "pow2 (- e) = of_int (2 ^ nat (- e))"
    by (simp add: pow2_nat)
  moreover have "pow2 (- e) * pow2 e = 1"
    using pow2_add [of "- e" e] by (simp add: pow2_def)
  ultimately have inv: "1 / pow2 e = of_int (2 ^ nat (- e))"
    using pow2_pos [of e] by (simp add: field_simps)
  have "x / pow2 e \<le> of_int a * (1 / pow2 e)"
    using assms(2) pow2_pos [of e] by (simp add: divide_right_mono)
  also have "\<dots> = of_int (a * 2 ^ nat (- e))"
    unfolding inv by simp
  finally have "r \<le> a * 2 ^ nat (- e)"
    unfolding r_def by (rule rhe_upper)
  then have "rat_of_int r \<le> of_int (a * 2 ^ nat (- e))"
    by (simp only: of_int_le_iff)
  then have "rat_of_int r \<le> of_int a * (1 / pow2 e)"
    unfolding inv by simp
  then show ?thesis
    unfolding fx using pow2_pos [of e] by (simp add: field_simps)
qed

lemma fl64_nonneg: "0 \<le> x \<Longrightarrow> 0 \<le> fl64 x"
  using rhe_lower [of 0 "\<bar>x\<bar> / pow2 e" for e] pow2_pos
  by (auto simp: fl64_def Let_def intro!: mult_nonneg_nonneg simp: less_imp_le)

lemma fl64_lower:
  assumes "of_int a \<le> x" and "\<bar>a\<bar> < 2 ^ 53"
  shows "of_int a \<le> fl64 x"
proof -
  consider "0 < x" | "x \<le> 0" by linarith
  then show ?thesis
  proof cases
    case 1
    show ?thesis
    proof (cases "0 < a")
      case True
      with 1 assms show ?thesis by (intro fl64_lower_pos) simp_all
    next
      case False
      then have "rat_of_int a \<le> 0" by simp
      also have "0 \<le> fl64 x" using 1 by (intro fl64_nonneg) simp
      finally show ?thesis .
    qed
  next
    case 2
    show ?thesis
    proof (cases "x = 0")
      case True
      with assms show ?thesis by (simp add: fl64_def)
    next
      case False
      with 2 have "0 < - x" by simp
      moreover have "- x \<le> of_int (- a)" using assms(1) by simp
      moreover have "- a < 2 ^ 53" using assms(2) by simp
      ultimately have "fl64 (- x) \<le> of_int (- a)"
        by (rule fl64_upper_pos)
      then show ?thesis
        by (simp add: fl64_minus)
    qed
  qed
qed

lemma fl64_upper:
  assumes "x \<le> of_int a" and "\<bar>a\<bar> < 2 ^ 53"
  shows "fl64 x \<le> of_int a"
proof -
  have "of_int (- a) \<le> - x" using assms(1) by simp
  moreover have "\<bar>- a\<bar> < 2 ^ 53" using assms(2) by simp
  ultimately have "of_int (- a) \<le> fl64 (- x)"
    by (rule fl64_lower)
  then show ?thesis
    by (simp add: fl64_minus)
qed

lemma fl64_of_int: "\<bar>a\<bar> < 2 ^ 53 \<Longrightarrow> fl64 (of_int a) = of_int a"
  using fl64_lower [of a "of_int a"] fl64_upper [of "of_int a" a] by simp


lemma rhe_error: "\<bar>of_int (round_half_even q) - q\<bar> \<le> 1 / 2"
proof -
  define n where "n = \<lfloor>q\<rfloor>"
  define d where "d = q - of_int n"
  have d: "0 \<le> d" "d < 1"
    unfolding d_def n_def by linarith+
  have r: "round_half_even q =
      (if d < 1 / 2 then n else if 1 / 2 < d then n + 1 else if even n then n else n + 1)"
    by (simp add: round_half_even_def Let_def n_def d_def)
  have q: "q = of_int n + d"
    by (simp add: d_def)
  show ?thesis
    unfolding r using d q by (auto simp: abs_if)
qed

lemma binade_less:
  assumes "0 < x" and "x < pow2 (b + 1)"
  shows "binade x \<le> b"
proof (rule ccontr)
  assume "\<not> binade x \<le> b"
  then have "pow2 (b + 1) \<le> pow2 (binade x)"
    by (intro pow2_mono) simp
  with binade_bounds(1) [OF assms(1)] assms(2) show False
    by simp
qed

lemma fl64_error:
  assumes "\<bar>x\<bar> < pow2 (b + 1)" and "- 1022 \<le> b"
  shows "\<bar>fl64 x - x\<bar> \<le> pow2 (b - 53)"
proof (cases "x = 0")
  case True
  then show ?thesis
    using pow2_pos [of "b - 53"] by (simp add: fl64_def)
next
  case False
  define e where "e = max (binade \<bar>x\<bar> - 52) (- 1074)"
  define q where "q = \<bar>x\<bar> / pow2 e"
  define r where "r = round_half_even q"
  have p: "0 < pow2 e"
    by (rule pow2_pos)
  have fx: "fl64 x = sgn x * (of_int r * pow2 e)"
    using False by (simp add: fl64_def e_def q_def r_def Let_def)
  have ax: "x = sgn x * (q * pow2 e)"
    using p by (simp add: q_def sgn_mult_abs)
  have "fl64 x - x = sgn x * ((of_int r - q) * pow2 e)"
    by (subst fx, subst (2) ax) (simp add: algebra_simps)
  then have "\<bar>fl64 x - x\<bar> = \<bar>of_int r - q\<bar> * pow2 e"
    using False p by (simp add: abs_mult abs_sgn_eq)
  also have "\<dots> \<le> 1 / 2 * pow2 e"
    using rhe_error [of q] p unfolding r_def by (intro mult_right_mono) simp_all
  also have "\<dots> \<le> 1 / 2 * pow2 (b - 52)"
  proof -
    from False have "0 < \<bar>x\<bar>" by simp
    then have "binade \<bar>x\<bar> \<le> b"
      using assms(1) by (rule binade_less)
    with assms(2) have "e \<le> b - 52"
      by (simp add: e_def)
    then have "pow2 e \<le> pow2 (b - 52)"
      by (rule pow2_mono)
    then show ?thesis by simp
  qed
  also have "\<dots> = pow2 (b - 53)"
    using pow2_add [of "b - 53" 1] by (simp add: pow2_def)
  finally show ?thesis .
qed

lemma Number_of_int64_nonzero: "t \<noteq> 0 \<Longrightarrow> Number_of_int64 t \<noteq> 0"
proof -
  assume "t \<noteq> 0"
  then consider "1 \<le> t" | "t \<le> - 1" by linarith
  then show ?thesis
  proof cases
    case 1
    then have "rat_of_int 1 \<le> of_int t" by simp
    then have "rat_of_int 1 \<le> fl64 (of_int t)"
      by (rule fl64_lower) simp
    then show ?thesis by (simp add: Number_of_int64_def)
  next
    case 2
    then have "rat_of_int t \<le> of_int (- 1)" by simp
    then have "fl64 (of_int t) \<le> rat_of_int (- 1)"
      by (rule fl64_upper) simp
    then show ?thesis by (simp add: Number_of_int64_def)
  qed
qed


subsection \<open>The binary text decoder\<close>

lemma isBplist_prefix: "isBplist buf \<longleftrightarrow> prefix bplist_magic buf"
proof
  assume "prefix bplist_magic buf"
  then obtain zs where "buf = bplist_magic @ zs"
    by (auto simp: prefix_def)
  then show "isBplist buf"
    by (simp add: isBplist_def bplist_magic_def)
next
  assume a: "isBplist buf"
  have "take 6 buf = bplist_magic"
  proof (rule nth_equalityI)
    show "length (take 6 buf) = length bplist_magic"
      using a by (simp add: isBplist_def bplist_magic_def)
    fix i
    assume "i < length (take 6 buf)"
    then have "i < 6" by simp
    then have "i = 0 \<or> i = 1 \<or> i = 2 \<or> i = 3 \<or> i = 4 \<or> i = 5"
      by arith
    then show "take 6 buf ! i = bplist_magic ! i"
      using a by (auto simp: isBplist_def bplist_magic_def)
  qed
  then show "prefix bplist_magic buf"
    by (metis take_is_prefix)
qed

lemma indexOf_from_None: "indexOf_from i buf m = None \<longleftrightarrow> \<not> sublist m buf"
  by (induction buf arbitrary: i) (auto simp: sublist_Cons_right)

lemma string_keys_truthy: "string_keys obj = Inr (Some v) \<Longrightarrow> truthy v"
  by (auto simp: string_keys_def split: sum.splits if_splits)

lemma bplist_try_truthy: "bplist_try e buf = Inr (Some v) \<Longrightarrow> truthy v"
  by (auto simp: bplist_try_def Let_def split: sum.splits if_splits option.splits
      dest: string_keys_truthy)

lemma typedstream_text_cases:
  "typedstream_text e buf = JNull \<or> (\<exists>s. s \<noteq> [] \<and> typedstream_text e buf = JStr s)"
  by (auto simp: typedstream_text_def Let_def split: option.splits prod.splits)

text \<open>
  Claim C7. A null buffer, a buffer shorter than 8 bytes, and a buffer that neither begins
  with the six bytes of \<^verbatim>\<open>bplist\<close> nor contains the bytes of \<^verbatim>\<open>NSString\<close> all decode to null.
\<close>

theorem decoder_null_without_header_and_marker:
  assumes a: "case attributedBody of
                None \<Rightarrow> True
              | Some buf \<Rightarrow>
                  length buf < 8 \<or> (\<not> prefix bplist_magic buf \<and> \<not> sublist nsStringMarker buf)"
  shows "extractTextFromAttributedBody e attributedBody = JNull"
proof (cases attributedBody)
  case None
  then show ?thesis
    by (simp add: extractTextFromAttributedBody_def)
next
  case (Some buf)
  show ?thesis
  proof (cases "length buf < 8")
    case True
    with Some show ?thesis
      by (simp add: extractTextFromAttributedBody_def)
  next
    case False
    with Some a have nb: "\<not> isBplist buf" and "\<not> sublist nsStringMarker buf"
      by (simp_all add: isBplist_prefix)
    then have "indexOf buf nsStringMarker = None"
      by (simp add: indexOf_def indexOf_from_None)
    then have "typedstream_text e buf = JNull"
      by (simp add: typedstream_text_def)
    with Some nb show ?thesis
      by (simp add: extractTextFromAttributedBody_def)
  qed
qed

theorem decoder_null_without_header_and_marker_witness:
  "extractTextFromAttributedBody sample_env None = JNull \<and>
   extractTextFromAttributedBody sample_env (Some [0x62, 0x70, 0x6c, 0x69, 0x73, 0x74, 0x30]) = JNull \<and>
   \<not> prefix bplist_magic [1, 2, 3, 4, 5, 6, 7, 8, 9] \<and>
   \<not> sublist nsStringMarker [1, 2, 3, 4, 5, 6, 7, 8, 9] \<and>
   extractTextFromAttributedBody sample_env (Some [1, 2, 3, 4, 5, 6, 7, 8, 9]) = JNull"
proof -
  have h: "\<not> prefix bplist_magic [1, 2, 3, 4, 5, 6, 7, 8, 9]"
          "\<not> sublist nsStringMarker [1, 2, 3, 4, 5, 6, 7, 8, 9]"
    by (simp_all add: bplist_magic_def nsStringMarker_def sublist_Cons_right)
  show ?thesis
    using h decoder_null_without_header_and_marker [of None sample_env]
      decoder_null_without_header_and_marker [of "Some [0x62, 0x70, 0x6c, 0x69, 0x73, 0x74, 0x30]" sample_env]
      decoder_null_without_header_and_marker [of "Some [1, 2, 3, 4, 5, 6, 7, 8, 9]" sample_env]
    by simp
qed

lemma read_length_truncated:
  assumes "(buf ! off = 0x81 \<and> length buf \<le> off + 1) \<or> (buf ! off = 0x82 \<and> length buf \<le> off + 2)"
  shows "fst (read_length buf off) = 0"
  using assms by (auto simp: read_length_def Let_def)

lemma typedstream_text_truncated:
  assumes "indexOf buf nsStringMarker = Some i"
    and "off = length_field_offset buf i"
    and "(buf ! off = 0x81 \<and> length buf \<le> off + 1) \<or> (buf ! off = 0x82 \<and> length buf \<le> off + 2)"
  shows "typedstream_text e buf = JNull"
proof -
  from assms(3) have z: "fst (read_length buf off) = 0"
    by (rule read_length_truncated)
  obtain l o' where r: "read_length buf off = (l, o')"
    by (cases "read_length buf off")
  with z have "l = 0" by simp
  with r assms(1,2) show ?thesis
    by (simp add: typedstream_text_def length_field_offset_def Let_def)
qed

lemma parse_failure_is_caught:
  "parseBuffer e buf = Inl err \<Longrightarrow> bplist_try e buf = Inl err"
  by (simp add: bplist_try_def)

lemma decoder_returns_parsed_value_sample:
  "extractTextFromAttributedBody sample_env (Some sample_bplist) = JNum 5"
  by (simp add: extractTextFromAttributedBody_def sample_env_def sample_bplist_def isBplist_def
      bplist_try_def string_keys_def)

text \<open>
  Claim C8, as stated, at a malformed property list: the parser raises on
  \<open>malformed_bplist\<close>, the exception is caught, and the decoder returns the text that the
  marker scan finds, not null.
\<close>

theorem decoder_parse_failure_counterexample:
  "isBplist malformed_bplist \<and>
   parseBuffer sample_env malformed_bplist = Inl ParseError \<and>
   extractTextFromAttributedBody sample_env (Some malformed_bplist) = JStr ''Hi'' \<and>
   extractTextFromAttributedBody sample_env (Some malformed_bplist) \<noteq> JNull"
  by code_simp

text \<open>
  Claim C8, amended. The decoder returns a value for every buffer and never raises: null
  for a null or short buffer; and whenever the structured-archive branch does not return
  (the buffer lacks the header, the parser or a property access raises, or no text key
  holds a truthy value) the result is that of the marker scan, which is null or a non-empty
  string, and null when the length field is cut off by the end of the buffer. The result
  depends on the buffer and the two collaborators only.
\<close>

theorem decoder_total:
  "extractTextFromAttributedBody e None = JNull \<and>
   (length buf < 8 \<longrightarrow> extractTextFromAttributedBody e (Some buf) = JNull) \<and>
   (8 \<le> length buf \<and>
    (\<not> isBplist buf \<or> parseBuffer e buf = Inl err \<or> bplist_try e buf = Inl err \<or>
     bplist_try e buf = Inr None) \<longrightarrow>
      extractTextFromAttributedBody e (Some buf) = typedstream_text e buf) \<and>
   (typedstream_text e buf = JNull \<or> (\<exists>s. s \<noteq> [] \<and> typedstream_text e buf = JStr s)) \<and>
   (parseBuffer e' = parseBuffer e \<and> utf8 e' = utf8 e \<longrightarrow>
      extractTextFromAttributedBody e' (Some buf) = extractTextFromAttributedBody e (Some buf)) \<and>
   (indexOf buf nsStringMarker = Some i \<and> off = length_field_offset buf i \<and>
    ((buf ! off = 0x81 \<and> length buf \<le> off + 1) \<or> (buf ! off = 0x82 \<and> length buf \<le> off + 2)) \<longrightarrow>
      typedstream_text e buf = JNull)"
proof -
  have trunc: "indexOf buf nsStringMarker = Some i \<and> off = length_field_offset buf i \<and>
    ((buf ! off = 0x81 \<and> length buf \<le> off + 1) \<or> (buf ! off = 0x82 \<and> length buf \<le> off + 2)) \<longrightarrow>
      typedstream_text e buf = JNull"
    using typedstream_text_truncated [of buf i off e] by blast
  have short: "length buf < 8 \<longrightarrow> extractTextFromAttributedBody e (Some buf) = JNull"
    by (simp add: extractTextFromAttributedBody_def)
  have fall: "8 \<le> length buf \<and>
    (\<not> isBplist buf \<or> parseBuffer e buf = Inl err \<or> bplist_try e buf = Inl err \<or>
     bplist_try e buf = Inr None) \<longrightarrow>
      extractTextFromAttributedBody e (Some buf) = typedstream_text e buf"
    by (auto simp: extractTextFromAttributedBody_def parse_failure_is_caught)
  have pure: "parseBuffer e' = parseBuffer e \<and> utf8 e' = utf8 e \<longrightarrow>
      extractTextFromAttributedBody e' (Some buf) = extractTextFromAttributedBody e (Some buf)"
  proof
    assume eq: "parseBuffer e' = parseBuffer e \<and> utf8 e' = utf8 e"
    then have "bplist_try e' buf = bplist_try e buf"
      by (simp add: bplist_try_def)
    moreover from eq have "typedstream_text e' buf = typedstream_text e buf"
      by (simp add: typedstream_text_def Let_def split: option.splits prod.splits)
    ultimately show
      "extractTextFromAttributedBody e' (Some buf) = extractTextFromAttributedBody e (Some buf)"
      by (simp add: extractTextFromAttributedBody_def split: sum.splits option.splits)
  qed
  have null: "extractTextFromAttributedBody e None = JNull"
    by (simp add: extractTextFromAttributedBody_def)
  from null short fall typedstream_text_cases [of e buf] pure trunc show ?thesis
    by (intro conjI)
qed

theorem decoder_total_witness:
  "8 \<le> length truncated_length \<and> \<not> isBplist truncated_length \<and>
   indexOf truncated_length nsStringMarker = Some 2 \<and>
   length_field_offset truncated_length 2 = 15 \<and>
   truncated_length ! 15 = 0x82 \<and> length truncated_length \<le> 15 + 2 \<and>
   extractTextFromAttributedBody sample_env (Some truncated_length) = JNull \<and>
   8 \<le> length malformed_bplist \<and> parseBuffer sample_env malformed_bplist = Inl ParseError \<and>
   extractTextFromAttributedBody sample_env (Some malformed_bplist) =
     typedstream_text sample_env malformed_bplist \<and>
   extractTextFromAttributedBody sample_env (Some sample_typedstream) = JStr ''Hi''"
proof -
  have h1: "8 \<le> length truncated_length \<and> \<not> isBplist truncated_length"
    by code_simp
  have h2: "8 \<le> length malformed_bplist \<and> parseBuffer sample_env malformed_bplist = Inl ParseError"
    by code_simp
  have h3: "indexOf truncated_length nsStringMarker = Some 2"
    "length_field_offset truncated_length 2 = 15"
    "truncated_length ! 15 = 0x82" "length truncated_length \<le> 15 + 2"
    by code_simp+
  have v2: "extractTextFromAttributedBody sample_env (Some sample_typedstream) = JStr ''Hi''"
    by code_simp
  note t1 = decoder_total [of sample_env truncated_length ParseError sample_env 2 15]
  note t2 = decoder_total [of sample_env malformed_bplist ParseError sample_env 2 15]
  from t1 [THEN conjunct2, THEN conjunct2, THEN conjunct2, THEN conjunct2, THEN conjunct2] h3
  have v1: "typedstream_text sample_env truncated_length = JNull"
    by simp
  from t1 [THEN conjunct2, THEN conjunct2, THEN conjunct1] h1
  have "extractTextFromAttributedBody sample_env (Some truncated_length) =
      typedstream_text sample_env truncated_length"
    by simp
  with v1 have a: "extractTextFromAttributedBody sample_env (Some truncated_length) = JNull"
    by simp
  from t2 [THEN conjunct2, THEN conjunct2, THEN conjunct1] h2
  have b: "extractTextFromAttributedBody sample_env (Some malformed_bplist) =
     typedstream_text sample_env malformed_bplist"
    by simp
  from h1 h2 h3 a b v2 show ?thesis
    by simp
qed

subsection \<open>Rows to messages\<close>

lemma mapRowToMessage_fields:
  "msg_text (mapRowToMessage e d r c) = row_text e (fst r)"
  "msg_timestamp (mapRowToMessage e d r c) = row_timestamp e (m_date (fst r))"
  "msg_associatedMessageType (mapRowToMessage e d r c) =
     int_or_undefined (m_associated_message_type (fst r))"
  "msg_isRead (mapRowToMessage e d r c) = Boolean_of_int (m_is_read (fst r))"
  "msg_isFromMe (mapRowToMessage e d r c) = Boolean_of_int (m_is_from_me (fst r))"
  "msg_reactions (mapRowToMessage e d r c) = []"
  by (simp_all add: mapRowToMessage_def Let_def)

lemma attachReactions_fields:
  "msg_text (attachReactions e d c rm r) = row_text e (fst r)"
  "msg_timestamp (attachReactions e d c rm r) = row_timestamp e (m_date (fst r))"
  "msg_associatedMessageType (attachReactions e d c rm r) =
     int_or_undefined (m_associated_message_type (fst r))"
  by (simp_all add: attachReactions_def mapRowToMessage_fields)

lemma row_text_not_null: "row_text e m \<noteq> JNull"
proof -
  define x where "x = (if \<not> truthy (case m_text m of None \<Rightarrow> JNull | Some s \<Rightarrow> JStr s) \<and>
                          m_attributedBody m \<noteq> None
                       then extractTextFromAttributedBody e (m_attributedBody m)
                       else (case m_text m of None \<Rightarrow> JNull | Some s \<Rightarrow> JStr s))"
  have "row_text e m = (if truthy x then x else JStr [])"
    by (simp add: row_text_def Let_def x_def)
  then show ?thesis
    by (cases "truthy x") auto
qed

lemma getLastMessageForChat_Some:
  assumes "getLastMessageForChat e d chatId = Some m"
  shows "\<exists>r \<in> set (message_rows d chatId).
           (case m_associated_message_type (fst r) of None \<Rightarrow> True | Some t \<Rightarrow> t < 2000 \<or> t > 3005) \<and>
           m = mapRowToMessage e d r (String_of_int chatId)"
proof -
  let ?el = "[r \<leftarrow> message_rows d chatId.
                   (case m_associated_message_type (fst r) of
                      None \<Rightarrow> True
                    | Some t \<Rightarrow> t < 2000 \<or> t > 3005)]"
  from assms obtain r rs where s: "sql_limit 1 (order_by_date_desc ?el) = r # rs"
    and m: "m = mapRowToMessage e d r (String_of_int chatId)"
    by (auto simp: getLastMessageForChat_def split: list.splits)
  have "r \<in> set (sql_limit 1 (order_by_date_desc ?el))"
    unfolding s by simp
  then have "r \<in> set (order_by_date_desc ?el)"
    by (auto simp: sql_limit_def dest: in_set_takeD)
  then have "r \<in> set ?el"
    by (simp add: order_by_date_desc_def)
  then have "r \<in> set (message_rows d chatId)"
    and "case m_associated_message_type (fst r) of None \<Rightarrow> True | Some t \<Rightarrow> t < 2000 \<or> t > 3005"
    by simp_all
  with m show ?thesis
    by (intro bexI [of _ r]) simp_all
qed

lemma getConversations_lastMessage:
  assumes "c \<in> set (getConversations e d)" and "cv_lastMessage c = Some m"
  shows "\<exists>ch \<in> set (chat d). getLastMessageForChat e d (c_ROWID ch) = Some m"
proof -
  from assms(1) obtain ch where "ch \<in> set (conversation_rows d)" and c: "c = conversationOfRow e d ch"
    by (auto simp: getConversations_def)
  then have "ch \<in> set (chat d)"
    by (simp add: conversation_rows_def)
  moreover from assms(2) have "getLastMessageForChat e d (c_ROWID ch) = Some m"
    by (simp add: c conversationOfRow_def Let_def)
  ultimately show ?thesis
    by (intro bexI [of _ ch])
qed

lemma getConversation_Some:
  assumes "getConversation e d s = Some c"
  shows "\<exists>ch \<in> set (chat d). bind_rowid e s = Some (c_ROWID ch) \<and> c = conversationOfRow e d ch"
proof -
  from assms obtain ch rest where f: "[c \<leftarrow> chat d. Some (c_ROWID c) = bind_rowid e s] = ch # rest"
    and c: "c = conversationOfRow e d ch"
    by (auto simp: getConversation_def split: list.splits)
  have "ch \<in> set [c \<leftarrow> chat d. Some (c_ROWID c) = bind_rowid e s]"
    unfolding f by simp
  then have "ch \<in> set (chat d)" and "bind_rowid e s = Some (c_ROWID ch)"
    by simp_all
  with c show ?thesis
    by (intro bexI [of _ ch]) simp_all
qed

lemma messages_getMessages:
  assumes "m \<in> set (messages (getMessages e d cid limit_arg before))"
  shows "\<exists>r \<in> set (fetch_rows e d cid (case limit_arg of None \<Rightarrow> 100 | Some l \<Rightarrow> l) before).
           \<not> is_reaction_row r \<and>
           m = attachReactions e d cid
                 (buildReactionsMap e (filter is_reaction_row
                    (fetch_rows e d cid (case limit_arg of None \<Rightarrow> 100 | Some l \<Rightarrow> l) before))) r"
proof -
  let ?limit = "case limit_arg of None \<Rightarrow> 100 | Some l \<Rightarrow> l"
  let ?rows = "fetch_rows e d cid ?limit before"
  from assms obtain r where
    r: "r \<in> set (slice0 ?limit (filter (\<lambda>r. \<not> is_reaction_row r) ?rows))"
    and m: "m = attachReactions e d cid (buildReactionsMap e (filter is_reaction_row ?rows)) r"
    by (auto simp: getMessages_def Let_def)
  from r have "r \<in> set (filter (\<lambda>r. \<not> is_reaction_row r) ?rows)"
    by (auto simp: slice0_def dest: in_set_takeD split: if_splits)
  then have "r \<in> set ?rows" and "\<not> is_reaction_row r"
    by simp_all
  with m show ?thesis
    by (intro bexI [of _ r]) simp_all
qed

text \<open>
  Claim C10. The text of a message built from a row is never null, whichever operation
  returns the message (\<^verbatim>\<open>getMessages\<close>, \<^verbatim>\<open>getConversations\<close>, \<^verbatim>\<open>getConversation\<close>); when the text
  column is NULL or empty and the decoder gives null, the text is the empty string.
\<close>

theorem message_text_not_null:
  "msg_text (mapRowToMessage e d r cid) \<noteq> JNull \<and>
   (\<forall>m \<in> set (messages (getMessages e d cid limit_arg before)). msg_text m \<noteq> JNull) \<and>
   (\<forall>c \<in> set (getConversations e d). \<forall>m. cv_lastMessage c = Some m \<longrightarrow> msg_text m \<noteq> JNull) \<and>
   (\<forall>c m. getConversation e d cid = Some c \<and> cv_lastMessage c = Some m \<longrightarrow> msg_text m \<noteq> JNull) \<and>
   ((m_text (fst r) = None \<or> m_text (fst r) = Some []) \<and>
    extractTextFromAttributedBody e (m_attributedBody (fst r)) = JNull \<longrightarrow>
      msg_text (mapRowToMessage e d r cid) = JStr [])"
proof -
  have p1: "msg_text (mapRowToMessage e d r cid) \<noteq> JNull"
    by (simp add: mapRowToMessage_fields row_text_not_null)
  have p2: "\<forall>m \<in> set (messages (getMessages e d cid limit_arg before)). msg_text m \<noteq> JNull"
  proof
    fix m
    assume "m \<in> set (messages (getMessages e d cid limit_arg before))"
    then obtain r' rm where "m = attachReactions e d cid rm r'"
      using messages_getMessages [of m e d cid limit_arg before] by auto
    then show "msg_text m \<noteq> JNull"
      by (simp add: attachReactions_fields row_text_not_null)
  qed
  have last: "msg_text m \<noteq> JNull" if "getLastMessageForChat e d k = Some m" for k m
  proof -
    from that obtain r' where "m = mapRowToMessage e d r' (String_of_int k)"
      using getLastMessageForChat_Some [of e d k m] by auto
    then show ?thesis
      by (simp add: mapRowToMessage_fields row_text_not_null)
  qed
  have p3: "\<forall>c \<in> set (getConversations e d). \<forall>m. cv_lastMessage c = Some m \<longrightarrow> msg_text m \<noteq> JNull"
  proof (intro ballI allI impI)
    fix c m
    assume "c \<in> set (getConversations e d)" and "cv_lastMessage c = Some m"
    then have "\<exists>ch \<in> set (chat d). getLastMessageForChat e d (c_ROWID ch) = Some m"
      by (rule getConversations_lastMessage)
    then obtain ch :: chat_row where "getLastMessageForChat e d (c_ROWID ch) = Some m"
      by auto
    then show "msg_text m \<noteq> JNull"
      by (rule last)
  qed
  have p4: "\<forall>c m. getConversation e d cid = Some c \<and> cv_lastMessage c = Some m \<longrightarrow> msg_text m \<noteq> JNull"
  proof (intro allI impI)
    fix c m
    assume a: "getConversation e d cid = Some c \<and> cv_lastMessage c = Some m"
    then have "getConversation e d cid = Some c"
      by simp
    then have "\<exists>ch \<in> set (chat d). bind_rowid e cid = Some (c_ROWID ch) \<and> c = conversationOfRow e d ch"
      by (rule getConversation_Some)
    then obtain ch where "c = conversationOfRow e d ch"
      by auto
    with a have "getLastMessageForChat e d (c_ROWID ch) = Some m"
      by (simp add: conversationOfRow_def Let_def)
    then show "msg_text m \<noteq> JNull"
      by (rule last)
  qed
  have p5: "(m_text (fst r) = None \<or> m_text (fst r) = Some []) \<and>
    extractTextFromAttributedBody e (m_attributedBody (fst r)) = JNull \<longrightarrow>
      msg_text (mapRowToMessage e d r cid) = JStr []"
    by (auto simp: mapRowToMessage_fields row_text_def Let_def)
  from p1 p2 p3 p4 p5 show ?thesis
    by blast
qed


theorem message_text_not_null_witness:
  "(m_text (fst (row_C, None)) = None \<or> m_text (fst (row_C, None)) = Some []) \<and>
   extractTextFromAttributedBody sample_env (m_attributedBody (fst (row_C, None))) = JNull \<and>
   msg_text (mapRowToMessage sample_env sample_db (row_C, None) ''1'') = JStr [] \<and>
   map msg_text (messages (getMessages sample_env sample_db ''1'' None None)) = [JStr ''hi'', JStr []] \<and>
   list_all (\<lambda>m. msg_text m \<noteq> JNull) (messages (getMessages sample_env sample_db ''1'' None None))"
proof -
  have h: "(m_text (fst (row_C, None)) = None \<or> m_text (fst (row_C, None)) = Some []) \<and>
      extractTextFromAttributedBody sample_env (m_attributedBody (fst (row_C, None))) = JNull"
    by code_simp
  have v: "map msg_text (messages (getMessages sample_env sample_db ''1'' None None)) =
      [JStr ''hi'', JStr []]"
    by code_simp
  from h v message_text_not_null [of sample_env sample_db "(row_C, None)" "''1''" None None]
  show ?thesis
    by (simp add: list_all_iff)
qed

subsection \<open>Timestamps\<close>

lemma js_timestamp_bounds:
  assumes "\<bar>t\<bar> \<le> 2 ^ 63"
  shows "978307200000 + t div 1000000 \<le> \<lfloor>js_add 978307200000 (js_div (of_int t) 1000000)\<rfloor>"
    and "\<lfloor>js_add 978307200000 (js_div (of_int t) 1000000)\<rfloor> \<le> 978307200000 + t div 1000000 + 1"
proof -
  define k where "k = t div 1000000"
  define y where "y = js_div (of_int t) 1000000"
  define s where "s = js_add 978307200000 y"
  have kb: "\<bar>k\<bar> \<le> 9223372036855"
    using assms unfolding k_def by simp
  have kfl: "k = \<lfloor>rat_of_int t / 1000000\<rfloor>"
    unfolding k_def using floor_divide_of_int_eq [of t 1000000, where ?'a = rat] by simp
  have q1: "of_int k \<le> rat_of_int t / 1000000"
    unfolding kfl by (rule of_int_floor_le)
  have q2: "rat_of_int t / 1000000 \<le> of_int (k + 1)"
    unfolding kfl using floor_correct [of "rat_of_int t / 1000000"] by simp
  have y1: "of_int k \<le> y"
    unfolding y_def js_div_def using q1 kb by (intro fl64_lower) simp_all
  have y2: "y \<le> of_int (k + 1)"
    unfolding y_def js_div_def using q2 kb by (intro fl64_upper) simp_all
  have s1: "of_int (978307200000 + k) \<le> s"
    unfolding s_def js_add_def using y1 kb by (intro fl64_lower) simp_all
  have s2: "s \<le> of_int (978307200000 + k + 1)"
    unfolding s_def js_add_def using y2 kb by (intro fl64_upper) simp_all
  from s1 show "978307200000 + t div 1000000 \<le> \<lfloor>js_add 978307200000 (js_div (of_int t) 1000000)\<rfloor>"
    unfolding s_def [symmetric] y_def [symmetric] k_def [symmetric] by (simp only: le_floor_iff)
  from s2 have "\<lfloor>s\<rfloor> \<le> \<lfloor>rat_of_int (978307200000 + k + 1)\<rfloor>"
    by (rule floor_mono)
  then show "\<lfloor>js_add 978307200000 (js_div (of_int t) 1000000)\<rfloor> \<le> 978307200000 + t div 1000000 + 1"
    unfolding s_def [symmetric] y_def [symmetric] k_def [symmetric] by (simp only: floor_of_int)
qed

lemma js_timestamp_error:
  assumes b1: "\<bar>rat_of_int t\<bar> < pow2 (b1 + 1)" "- 1022 \<le> b1"
    and b2: "(\<bar>rat_of_int t\<bar> + pow2 (b1 - 53)) / 1000000 < pow2 (b2 + 1)" "- 1022 \<le> b2"
    and b3: "978307200000 + (\<bar>rat_of_int t\<bar> + pow2 (b1 - 53)) / 1000000 + pow2 (b2 - 53)
               < pow2 (b3 + 1)" "- 1022 \<le> b3"
  shows "\<bar>js_add 978307200000 (js_div (Number_of_int64 t) 1000000)
           - (978307200000 + rat_of_int t / 1000000)\<bar>
         \<le> pow2 (b1 - 53) / 1000000 + pow2 (b2 - 53) + pow2 (b3 - 53)"
proof -
  define T where "T = rat_of_int t"
  define t' where "t' = fl64 T"
  define y where "y = fl64 (t' / 1000000)"
  define s where "s = fl64 (978307200000 + y)"
  have e1: "\<bar>t' - T\<bar> \<le> pow2 (b1 - 53)"
    unfolding t'_def using b1 unfolding T_def [symmetric] by (rule fl64_error)
  then have m1: "\<bar>t'\<bar> \<le> \<bar>T\<bar> + pow2 (b1 - 53)"
    by linarith
  have "\<bar>t' / 1000000\<bar> = \<bar>t'\<bar> / 1000000"
    by simp
  also have "\<dots> \<le> (\<bar>T\<bar> + pow2 (b1 - 53)) / 1000000"
    using m1 by (simp add: divide_right_mono)
  finally have m2: "\<bar>t' / 1000000\<bar> \<le> (\<bar>T\<bar> + pow2 (b1 - 53)) / 1000000" .
  with b2(1) have "\<bar>t' / 1000000\<bar> < pow2 (b2 + 1)"
    unfolding T_def by linarith
  then have e2: "\<bar>y - t' / 1000000\<bar> \<le> pow2 (b2 - 53)"
    unfolding y_def using b2(2) by (rule fl64_error)
  then have "\<bar>978307200000 + y\<bar> \<le> 978307200000 + \<bar>t' / 1000000\<bar> + pow2 (b2 - 53)"
    by linarith
  with m2 b3(1) have "\<bar>978307200000 + y\<bar> < pow2 (b3 + 1)"
    unfolding T_def by linarith
  then have e3: "\<bar>s - (978307200000 + y)\<bar> \<le> pow2 (b3 - 53)"
    unfolding s_def using b3(2) by (rule fl64_error)
  have "\<bar>t' / 1000000 - T / 1000000\<bar> = \<bar>t' - T\<bar> / 1000000"
    by (simp add: diff_divide_distrib [symmetric])
  also have "\<dots> \<le> pow2 (b1 - 53) / 1000000"
    using e1 by (simp add: divide_right_mono)
  finally have e1': "\<bar>t' / 1000000 - T / 1000000\<bar> \<le> pow2 (b1 - 53) / 1000000" .
  from e1' e2 e3 have "\<bar>s - (978307200000 + T / 1000000)\<bar>
      \<le> pow2 (b1 - 53) / 1000000 + pow2 (b2 - 53) + pow2 (b3 - 53)"
    by linarith
  then show ?thesis
    by (simp add: s_def y_def t'_def T_def js_add_def js_div_def Number_of_int64_def)
qed

lemma floor_band:
  assumes err: "\<bar>s - (rat_of_int E + rat_of_int t / 1000000)\<bar> \<le> err"
    and c: "err < rat_of_int c / 1000000" "c \<le> 500000"
  shows "c \<le> t mod 1000000 \<Longrightarrow> t mod 1000000 \<le> 1000000 - c \<Longrightarrow> \<lfloor>s\<rfloor> = E + t div 1000000"
    and "t mod 1000000 < c \<Longrightarrow> \<lfloor>s\<rfloor> = E + t div 1000000 - 1 \<or> \<lfloor>s\<rfloor> = E + t div 1000000"
    and "1000000 - c < t mod 1000000 \<Longrightarrow> \<lfloor>s\<rfloor> = E + t div 1000000 \<or> \<lfloor>s\<rfloor> = E + t div 1000000 + 1"
proof -
  define k where "k = t div 1000000"
  define f where "f = t mod 1000000"
  have f: "0 \<le> f" "f < 1000000"
    by (simp_all add: f_def)
  have "t = k * 1000000 + f"
    by (simp add: k_def f_def)
  then have "rat_of_int t = of_int k * 1000000 + of_int f"
    by (metis of_int_add of_int_mult of_int_numeral)
  then have T: "rat_of_int t / 1000000 = of_int k + of_int f / 1000000"
    by (simp add: field_simps)
  have c500: "rat_of_int c \<le> 500000"
    using c(2) by (metis of_int_le_iff of_int_numeral)
  have f0: "0 \<le> rat_of_int f" and f1: "rat_of_int f < 1000000"
    using f by (simp_all add: of_int_less_iff [of f 1000000, where ?'a = rat, simplified])
  from err have lo: "rat_of_int E + of_int k + of_int f / 1000000 - err \<le> s"
    and hi: "s \<le> rat_of_int E + of_int k + of_int f / 1000000 + err"
    unfolding T by linarith+
  show "\<lfloor>s\<rfloor> = E + t div 1000000" if "c \<le> t mod 1000000" "t mod 1000000 \<le> 1000000 - c"
  proof -
    from that have "rat_of_int c \<le> of_int f" and "rat_of_int f \<le> of_int (1000000 - c)"
      unfolding f_def [symmetric] by (simp_all only: of_int_le_iff)
    then have "rat_of_int c / 1000000 \<le> of_int f / 1000000"
      and "rat_of_int f / 1000000 \<le> 1 - of_int c / 1000000"
      by (simp_all add: field_simps)
    with lo hi c(1) have "rat_of_int (E + k) \<le> s" and "s < rat_of_int (E + k) + 1"
      by simp_all
    then have "\<lfloor>s\<rfloor> = E + k"
      by (intro floor_unique)
    then show ?thesis
      by (simp add: k_def)
  qed
  show "\<lfloor>s\<rfloor> = E + t div 1000000 - 1 \<or> \<lfloor>s\<rfloor> = E + t div 1000000" if "t mod 1000000 < c"
  proof -
    from that have "rat_of_int f < of_int c"
      unfolding f_def [symmetric] by (simp only: of_int_less_iff)
    then have "rat_of_int f / 1000000 < of_int c / 1000000"
      by (simp add: field_simps)
    with lo hi c(1) c500 f0 have "rat_of_int (E + k - 1) \<le> s" and "s < rat_of_int (E + k + 1)"
      by simp_all
    then have "E + k - 1 \<le> \<lfloor>s\<rfloor>" and "\<lfloor>s\<rfloor> < E + k + 1"
      by (simp_all only: le_floor_iff floor_less_iff)
    then show ?thesis
      unfolding k_def by linarith
  qed
  show "\<lfloor>s\<rfloor> = E + t div 1000000 \<or> \<lfloor>s\<rfloor> = E + t div 1000000 + 1" if "1000000 - c < t mod 1000000"
  proof -
    from that have "rat_of_int (1000000 - c) < of_int f"
      unfolding f_def [symmetric] by (simp only: of_int_less_iff)
    then have "1 - rat_of_int c / 1000000 < of_int f / 1000000"
      by (simp add: field_simps)
    with lo hi c(1) c500 f1 have "rat_of_int (E + k) \<le> s" and "s < rat_of_int (E + k + 2)"
      by simp_all
    then have "E + k \<le> \<lfloor>s\<rfloor>" and "\<lfloor>s\<rfloor> < E + k + 2"
      by (simp_all only: le_floor_iff floor_less_iff)
    then show ?thesis
      unfolding k_def by linarith
  qed
qed


lemma rat_abs_less:
  assumes "\<bar>t\<bar> < (n :: int)"
  shows "\<bar>rat_of_int t\<bar> < of_int n"
  using assms by (metis of_int_abs of_int_less_iff)

lemma magnitude_bounds:
  fixes A M e1 e2 P2 P3 :: rat
  assumes "A \<le> M" and "(M + e1) / 1000000 < P2" and "978307200000 + (M + e1) / 1000000 + e2 < P3"
  shows "(A + e1) / 1000000 < P2" and "978307200000 + (A + e1) / 1000000 + e2 < P3"
proof -
  from assms(1) have "(A + e1) / 1000000 \<le> (M + e1) / 1000000"
    by (simp add: divide_right_mono)
  with assms(2,3) show "(A + e1) / 1000000 < P2" and "978307200000 + (A + e1) / 1000000 + e2 < P3"
    by linarith+
qed

lemma js_timestamp_error_53:
  assumes "\<bar>t\<bar> < 2 ^ 53"
  shows "\<bar>js_add 978307200000 (js_div (Number_of_int64 t) 1000000)
           - (rat_of_int 978307200000 + rat_of_int t / 1000000)\<bar>
         \<le> 1 / 2000000 + 1 / 2 ^ 20 + 1 / 2 ^ 14"
proof -
  have a: "\<bar>rat_of_int t\<bar> < 2 ^ 53"
    using rat_abs_less [OF assms] by simp
  have "\<bar>js_add 978307200000 (js_div (Number_of_int64 t) 1000000)
           - (978307200000 + rat_of_int t / 1000000)\<bar>
         \<le> pow2 (52 - 53) / 1000000 + pow2 (33 - 53) + pow2 (39 - 53)"
  proof (rule js_timestamp_error)
    have m: "\<bar>rat_of_int t\<bar> \<le> 2 ^ 53"
      using a by simp
    show "\<bar>rat_of_int t\<bar> < pow2 (52 + 1)"
      using a by (simp add: pow2_def)
    show "(\<bar>rat_of_int t\<bar> + pow2 (52 - 53)) / 1000000 < pow2 (33 + 1)"
      by (rule magnitude_bounds(1) [OF m, where ?e2.0 = "pow2 (33 - 53)" and ?P3.0 = "pow2 (39 + 1)"])
        (simp_all add: pow2_def)
    show "978307200000 + (\<bar>rat_of_int t\<bar> + pow2 (52 - 53)) / 1000000 + pow2 (33 - 53)
            < pow2 (39 + 1)"
      by (rule magnitude_bounds(2) [OF m, where ?P2.0 = "pow2 (33 + 1)"]) (simp_all add: pow2_def)
  qed simp_all
  then show ?thesis
    by (simp add: pow2_def)
qed

lemma js_timestamp_error_60:
  assumes "\<bar>t\<bar> < 2 ^ 60"
  shows "\<bar>js_add 978307200000 (js_div (Number_of_int64 t) 1000000)
           - (rat_of_int 978307200000 + rat_of_int t / 1000000)\<bar>
         \<le> 64 / 1000000 + 1 / 2 ^ 13 + 1 / 2 ^ 13"
proof -
  have a: "\<bar>rat_of_int t\<bar> < 2 ^ 60"
    using rat_abs_less [OF assms] by simp
  have "\<bar>js_add 978307200000 (js_div (Number_of_int64 t) 1000000)
           - (978307200000 + rat_of_int t / 1000000)\<bar>
         \<le> pow2 (59 - 53) / 1000000 + pow2 (40 - 53) + pow2 (40 - 53)"
  proof (rule js_timestamp_error)
    have m: "\<bar>rat_of_int t\<bar> \<le> 2 ^ 60"
      using a by simp
    show "\<bar>rat_of_int t\<bar> < pow2 (59 + 1)"
      using a by (simp add: pow2_def)
    show "(\<bar>rat_of_int t\<bar> + pow2 (59 - 53)) / 1000000 < pow2 (40 + 1)"
      by (rule magnitude_bounds(1) [OF m, where ?e2.0 = "pow2 (40 - 53)" and ?P3.0 = "pow2 (40 + 1)"])
        (simp_all add: pow2_def)
    show "978307200000 + (\<bar>rat_of_int t\<bar> + pow2 (59 - 53)) / 1000000 + pow2 (40 - 53)
            < pow2 (40 + 1)"
      by (rule magnitude_bounds(2) [OF m, where ?P2.0 = "pow2 (40 + 1)"]) (simp_all add: pow2_def)
  qed simp_all
  then show ?thesis
    by (simp add: pow2_def)
qed

lemma js_timestamp_error_63:
  assumes "\<bar>t\<bar> \<le> 2 ^ 63"
  shows "\<bar>js_add 978307200000 (js_div (Number_of_int64 t) 1000000)
           - (rat_of_int 978307200000 + rat_of_int t / 1000000)\<bar>
         \<le> 1024 / 1000000 + 1 / 2 ^ 10 + 1 / 2 ^ 10"
proof -
  from assms have "\<bar>t\<bar> < 2 ^ 64"
    by simp
  then have a: "\<bar>rat_of_int t\<bar> < 2 ^ 64"
    using rat_abs_less [of t "2 ^ 64"] by simp
  from assms have a': "\<bar>rat_of_int t\<bar> \<le> 2 ^ 63"
    by (metis of_int_abs of_int_le_iff of_int_numeral of_int_power)
  have "\<bar>js_add 978307200000 (js_div (Number_of_int64 t) 1000000)
           - (978307200000 + rat_of_int t / 1000000)\<bar>
         \<le> pow2 (63 - 53) / 1000000 + pow2 (43 - 53) + pow2 (43 - 53)"
  proof (rule js_timestamp_error)
    have m: "\<bar>rat_of_int t\<bar> \<le> 2 ^ 63"
      using a' by simp
    show "\<bar>rat_of_int t\<bar> < pow2 (63 + 1)"
      using a by (simp add: pow2_def)
    show "(\<bar>rat_of_int t\<bar> + pow2 (63 - 53)) / 1000000 < pow2 (43 + 1)"
      by (rule magnitude_bounds(1) [OF m, where ?e2.0 = "pow2 (43 - 53)" and ?P3.0 = "pow2 (43 + 1)"])
        (simp_all add: pow2_def)
    show "978307200000 + (\<bar>rat_of_int t\<bar> + pow2 (63 - 53)) / 1000000 + pow2 (43 - 53)
            < pow2 (43 + 1)"
      by (rule magnitude_bounds(2) [OF m, where ?P2.0 = "pow2 (43 + 1)"]) (simp_all add: pow2_def)
  qed simp_all
  then show ?thesis
    by (simp add: pow2_def)
qed

lemma row_timestamp_Some:
  "t \<noteq> 0 \<Longrightarrow>
     row_timestamp e (Some t) = \<lfloor>js_add 978307200000 (js_div (Number_of_int64 t) 1000000)\<rfloor>"
  by (simp add: row_timestamp_def Math_floor_def appleEpoch_def Let_def Number_of_int64_nonzero)

lemma row_timestamp_absent:
  "row_timestamp e None = now e" "row_timestamp e (Some 0) = now e"
  by (simp_all add: row_timestamp_def Math_floor_def Number_of_int64_def fl64_def)

lemma Number_of_int64_exact: "\<bar>t\<bar> < 2 ^ 53 \<Longrightarrow> Number_of_int64 t = of_int t"
  by (simp add: Number_of_int64_def fl64_of_int)

lemma timestamp_of_row:
  "m_date (fst r) = Some t \<Longrightarrow> t \<noteq> 0 \<Longrightarrow>
     msg_timestamp (mapRowToMessage e d r cid) =
       \<lfloor>js_add 978307200000 (js_div (Number_of_int64 t) 1000000)\<rfloor>"
  by (simp add: mapRowToMessage_fields row_timestamp_Some)

text \<open>
  Claim C3, as stated, at two raw timestamps. At 999999 the quotient 0.999999 added to the
  epoch offset rounds to the next integer, so the timestamp is one millisecond above
  \<open>978307200000 + floor (999999 / 1000000)\<close>. At 1152921504610000000, a whole number of
  milliseconds, the driver delivers the nearest double, which lies below it, and the
  timestamp is one millisecond below.
\<close>

theorem timestamp_rounding_counterexample:
  "m_date (fst (row_A \<lparr> m_date := Some 999999 \<rparr>, None)) = Some 999999 \<and>
   msg_timestamp (mapRowToMessage sample_env sample_db (row_A \<lparr> m_date := Some 999999 \<rparr>, None) ''1'')
     = 978307200001 \<and>
   978307200000 + \<lfloor>(999999 :: rat) / 1000000\<rfloor> = 978307200000 \<and>
   msg_timestamp (mapRowToMessage sample_env sample_db
       (row_A \<lparr> m_date := Some 1152921504610000000 \<rparr>, None) ''1'')
     = 2131228704609 \<and>
   978307200000 + \<lfloor>(1152921504610000000 :: rat) / 1000000\<rfloor> = 2131228704610"
  by code_simp

text \<open>
  Claim C3, amended. Write \<open>F\<close> for \<open>978307200000 + floor (t / 1000000)\<close> and \<open>f\<close> for the
  nanoseconds of \<open>t\<close> past its millisecond. For a row whose raw timestamp \<open>t\<close> is present
  and non-zero, the timestamp is \<open>F\<close> unless \<open>t\<close> lies close to a millisecond boundary:
  below \<open>2 ^ 53\<close> in magnitude it is \<open>F\<close> when \<open>f\<close> is at most 999937 and never anything but
  \<open>F\<close> or \<open>F + 1\<close>; below \<open>2 ^ 60\<close> it is \<open>F\<close> when \<open>f\<close> is between 310 and 999690; in the
  whole 64-bit range it is \<open>F\<close> when \<open>f\<close> is between 3000 and 997000. Outside these bands
  it is \<open>F - 1\<close> or \<open>F\<close> next to the lower boundary and \<open>F\<close> or \<open>F + 1\<close> next to the upper
  one. For a row whose raw timestamp is absent or zero it is the clock reading.
\<close>

theorem timestamp_conversion:
  "let F = 978307200000 + \<lfloor>rat_of_int t / 1000000\<rfloor>;
       f = t mod 1000000;
       ts = msg_timestamp (mapRowToMessage e d r cid)
   in (m_date (fst r) = Some t \<and> t \<noteq> 0 \<and> \<bar>t\<bar> < 2 ^ 53 \<longrightarrow>
         (ts = F \<or> ts = F + 1) \<and> (f \<le> 999937 \<longrightarrow> ts = F)) \<and>
      (m_date (fst r) = Some t \<and> t \<noteq> 0 \<and> \<bar>t\<bar> < 2 ^ 60 \<longrightarrow>
         (310 \<le> f \<and> f \<le> 999690 \<longrightarrow> ts = F) \<and>
         (f < 310 \<longrightarrow> ts = F - 1 \<or> ts = F) \<and>
         (999690 < f \<longrightarrow> ts = F \<or> ts = F + 1)) \<and>
      (m_date (fst r) = Some t \<and> t \<noteq> 0 \<and> \<bar>t\<bar> \<le> 2 ^ 63 \<longrightarrow>
         (3000 \<le> f \<and> f \<le> 997000 \<longrightarrow> ts = F) \<and>
         (f < 3000 \<longrightarrow> ts = F - 1 \<or> ts = F) \<and>
         (997000 < f \<longrightarrow> ts = F \<or> ts = F + 1)) \<and>
      (m_date (fst r) = None \<or> m_date (fst r) = Some 0 \<longrightarrow> ts = now e)"
proof -
  define F where "F = 978307200000 + \<lfloor>rat_of_int t / 1000000\<rfloor>"
  define f where "f = t mod 1000000"
  define ts where "ts = msg_timestamp (mapRowToMessage e d r cid)"
  define s where "s = js_add 978307200000 (js_div (Number_of_int64 t) 1000000)"
  have fl: "\<lfloor>rat_of_int t / 1000000\<rfloor> = t div 1000000"
    using floor_divide_of_int_eq [of t 1000000, where ?'a = rat] by simp
  have F: "F = 978307200000 + t div 1000000"
    by (simp add: F_def fl)
  have small: "(ts = F \<or> ts = F + 1) \<and> (f \<le> 999937 \<longrightarrow> ts = F)"
    if h: "m_date (fst r) = Some t \<and> t \<noteq> 0 \<and> \<bar>t\<bar> < 2 ^ 53"
  proof -
    from h have ts: "ts = \<lfloor>s\<rfloor>"
      by (simp add: ts_def s_def timestamp_of_row)
    from h have ex: "Number_of_int64 t = of_int t"
      by (simp add: Number_of_int64_exact)
    from h have "\<bar>t\<bar> \<le> 2 ^ 63"
      by simp
    from js_timestamp_bounds [OF this] have lo: "F \<le> ts" and hi: "ts \<le> F + 1"
      unfolding ts s_def ex F by simp_all
    from h have "\<bar>t\<bar> < 2 ^ 53"
      by simp
    note err = js_timestamp_error_53 [OF this, folded s_def]
    have c: "1 / 2000000 + 1 / 2 ^ 20 + 1 / 2 ^ 14 < rat_of_int 63 / 1000000"
      by simp
    have "ts = F" if "f \<le> 999937"
    proof (cases "63 \<le> f")
      case True
      with that have "63 \<le> t mod 1000000" and "t mod 1000000 \<le> 1000000 - 63"
        by (simp_all add: f_def)
      with floor_band(1) [OF err c] show ?thesis
        unfolding ts F by simp
    next
      case False
      then have "t mod 1000000 < 63"
        by (simp add: f_def)
      with floor_band(2) [OF err c] have "ts = F - 1 \<or> ts = F"
        unfolding ts F by simp
      with lo show ?thesis
        by linarith
    qed
    with lo hi show ?thesis
      by linarith
  qed
  have band: "(c \<le> f \<and> f \<le> 1000000 - c \<longrightarrow> ts = F) \<and> (f < c \<longrightarrow> ts = F - 1 \<or> ts = F) \<and>
      (1000000 - c < f \<longrightarrow> ts = F \<or> ts = F + 1)"
    if h: "m_date (fst r) = Some t \<and> t \<noteq> 0"
      and err: "\<bar>s - (rat_of_int 978307200000 + rat_of_int t / 1000000)\<bar> \<le> er"
      and c: "er < rat_of_int c / 1000000" "c \<le> 500000" for er c
  proof -
    from h have ts: "ts = \<lfloor>s\<rfloor>"
      by (simp add: ts_def s_def timestamp_of_row)
    from floor_band [OF err c] show ?thesis
      unfolding ts F f_def by simp
  qed
  have mid: "(310 \<le> f \<and> f \<le> 999690 \<longrightarrow> ts = F) \<and> (f < 310 \<longrightarrow> ts = F - 1 \<or> ts = F) \<and>
      (999690 < f \<longrightarrow> ts = F \<or> ts = F + 1)"
    if h: "m_date (fst r) = Some t \<and> t \<noteq> 0 \<and> \<bar>t\<bar> < 2 ^ 60"
  proof -
    from h have "\<bar>t\<bar> < 2 ^ 60" and h': "m_date (fst r) = Some t \<and> t \<noteq> 0"
      by simp_all
    from band [OF h' js_timestamp_error_60 [OF this(1), folded s_def], of 310] show ?thesis
      by simp
  qed
  have large: "(3000 \<le> f \<and> f \<le> 997000 \<longrightarrow> ts = F) \<and> (f < 3000 \<longrightarrow> ts = F - 1 \<or> ts = F) \<and>
      (997000 < f \<longrightarrow> ts = F \<or> ts = F + 1)"
    if h: "m_date (fst r) = Some t \<and> t \<noteq> 0 \<and> \<bar>t\<bar> \<le> 2 ^ 63"
  proof -
    from h have "\<bar>t\<bar> \<le> 2 ^ 63" and h': "m_date (fst r) = Some t \<and> t \<noteq> 0"
      by simp_all
    from band [OF h' js_timestamp_error_63 [OF this(1), folded s_def], of 3000] show ?thesis
      by simp
  qed
  have absent: "m_date (fst r) = None \<or> m_date (fst r) = Some 0 \<longrightarrow> ts = now e"
    by (auto simp: ts_def mapRowToMessage_fields row_timestamp_absent)
  note a1 = impI [OF small] and a2 = impI [OF mid] and a3 = impI [OF large]
  from a1 a2 a3 absent show ?thesis
    unfolding Let_def F_def [symmetric] f_def [symmetric] ts_def [symmetric]
    by (intro conjI)
qed

theorem timestamp_conversion_witness:
  "m_date (fst (row_A, None)) = Some 10000000 \<and> (10000000 :: int) \<noteq> 0 \<and>
   \<bar>10000000 :: int\<bar> < 2 ^ 53 \<and> (10000000 :: int) mod 1000000 \<le> 999937 \<and>
   msg_timestamp (mapRowToMessage sample_env sample_db (row_A, None) ''1'') = 978307200010 \<and>
   m_date (fst (blank_message, None)) = None \<and>
   msg_timestamp (mapRowToMessage sample_env sample_db (blank_message, None) ''1'') = 1700000000000"
proof -
  have h: "m_date (fst (row_A, None)) = Some 10000000" "m_date (fst (blank_message, None)) = None"
    by (simp_all add: row_A_def blank_message_def)
  have n: "now sample_env = 1700000000000"
    by (simp add: sample_env_def)
  have f: "\<lfloor>rat_of_int 10000000 / 1000000\<rfloor> = 10"
    by simp
  note t1 = timestamp_conversion [of 10000000 sample_env sample_db "(row_A, None)" "''1''", unfolded Let_def]
  note t2 = timestamp_conversion [of 0 sample_env sample_db "(blank_message, None)" "''1''", unfolded Let_def]
  from t1 [THEN conjunct1] h(1) f
  have a: "msg_timestamp (mapRowToMessage sample_env sample_db (row_A, None) ''1'') = 978307200010"
    by simp
  from t2 [THEN conjunct2, THEN conjunct2, THEN conjunct2] h(2) n
  have b: "msg_timestamp (mapRowToMessage sample_env sample_db (blank_message, None) ''1'') = 1700000000000"
    by simp
  from h a b show ?thesis
    by simp
qed


subsection \<open>Conversations\<close>

text \<open>
  Claim C9. \<^verbatim>\<open>getConversation\<close> returns null exactly when no row of \<^verbatim>\<open>chat\<close> has the row id
  that the parameter binds to; it raises nothing on that path, and a conversation that
  exists is returned.
\<close>

theorem getConversation_absent_is_null:
  "(getConversation e d conversationId = None) =
     (\<forall>c \<in> set (chat d). bind_rowid e conversationId \<noteq> Some (c_ROWID c))"
proof -
  have "(getConversation e d conversationId = None) =
          ([c \<leftarrow> chat d. Some (c_ROWID c) = bind_rowid e conversationId] = [])"
    by (simp add: getConversation_def split: list.splits)
  also have "\<dots> = (\<forall>c \<in> set (chat d). bind_rowid e conversationId \<noteq> Some (c_ROWID c))"
    by (auto simp: filter_empty_conv)
  finally show ?thesis .
qed

theorem getConversation_absent_is_null_witness:
  "list_all (\<lambda>c. bind_rowid sample_env ''9'' \<noteq> Some (c_ROWID c)) (chat sample_db) \<and>
   getConversation sample_env sample_db ''9'' = None \<and>
   bind_rowid sample_env ''2'' = Some (c_ROWID (chat sample_db ! 1)) \<and>
   getConversation sample_env sample_db ''2'' \<noteq> None"
proof -
  have h: "list_all (\<lambda>c. bind_rowid sample_env ''9'' \<noteq> Some (c_ROWID c)) (chat sample_db)"
    by code_simp
  have k: "bind_rowid sample_env ''2'' = Some (c_ROWID (chat sample_db ! 1))"
    by code_simp
  have m: "chat sample_db ! 1 \<in> set (chat sample_db)"
    by (simp add: sample_db_def)
  from h have "getConversation sample_env sample_db ''9'' = None"
    using getConversation_absent_is_null [of sample_env sample_db "''9''"]
    by (simp add: list_all_iff)
  moreover from k m have "getConversation sample_env sample_db ''2'' \<noteq> None"
    using getConversation_absent_is_null [of sample_env sample_db "''2''"]
    by blast
  ultimately show ?thesis
    using h k by simp
qed

text \<open>
  Claim C6. Every conversation that \<^verbatim>\<open>getConversations\<close> or \<^verbatim>\<open>getConversation\<close> returns
  carries as \<^verbatim>\<open>unreadCount\<close> the number of rows of \<^verbatim>\<open>message\<close> joined to its chat that are
  unread and not from me, the two flags read as \<^verbatim>\<open>mapRowToMessage\<close> reads them into
  \<^verbatim>\<open>isRead\<close> and \<^verbatim>\<open>isFromMe\<close>. Reaction rows are rows of \<^verbatim>\<open>message\<close> and count as well.
\<close>

theorem unread_count_counts_unread_not_from_me:
  "(\<forall>cv \<in> set (getConversations e d).
      \<exists>ch \<in> set (chat d). cv_id cv = String_of_int (c_ROWID ch) \<and>
        cv_unreadCount cv =
          int (length [m \<leftarrow> chat_messages d (c_ROWID ch).
                 \<not> Boolean_of_int (m_is_read m) \<and> \<not> Boolean_of_int (m_is_from_me m)])) \<and>
   (\<forall>cv. getConversation e d conversationId = Some cv \<longrightarrow>
      (\<exists>ch \<in> set (chat d). bind_rowid e conversationId = Some (c_ROWID ch) \<and>
        cv_id cv = String_of_int (c_ROWID ch) \<and>
        cv_unreadCount cv =
          int (length [m \<leftarrow> chat_messages d (c_ROWID ch).
                 \<not> Boolean_of_int (m_is_read m) \<and> \<not> Boolean_of_int (m_is_from_me m)]))) \<and>
   msg_isRead (mapRowToMessage e d r cid) = Boolean_of_int (m_is_read (fst r)) \<and>
   msg_isFromMe (mapRowToMessage e d r cid) = Boolean_of_int (m_is_from_me (fst r))"
proof -
  have cnt: "cv_unreadCount (conversationOfRow e d ch) =
      int (length [m \<leftarrow> chat_messages d (c_ROWID ch).
             \<not> Boolean_of_int (m_is_read m) \<and> \<not> Boolean_of_int (m_is_from_me m)])"
    and idc: "cv_id (conversationOfRow e d ch) = String_of_int (c_ROWID ch)" for ch
    by (simp_all add: conversationOfRow_def Let_def unread_count_def Boolean_of_int_def)
  have p1: "\<forall>cv \<in> set (getConversations e d).
      \<exists>ch \<in> set (chat d). cv_id cv = String_of_int (c_ROWID ch) \<and>
        cv_unreadCount cv =
          int (length [m \<leftarrow> chat_messages d (c_ROWID ch).
                 \<not> Boolean_of_int (m_is_read m) \<and> \<not> Boolean_of_int (m_is_from_me m)])"
  proof
    fix cv
    assume "cv \<in> set (getConversations e d)"
    then obtain ch where "ch \<in> set (conversation_rows d)" and cv: "cv = conversationOfRow e d ch"
      by (auto simp: getConversations_def)
    then have "ch \<in> set (chat d)"
      by (simp add: conversation_rows_def)
    then show "\<exists>ch \<in> set (chat d). cv_id cv = String_of_int (c_ROWID ch) \<and>
        cv_unreadCount cv =
          int (length [m \<leftarrow> chat_messages d (c_ROWID ch).
                 \<not> Boolean_of_int (m_is_read m) \<and> \<not> Boolean_of_int (m_is_from_me m)])"
      unfolding cv using cnt idc by (intro bexI [of _ ch] conjI)
  qed
  have p2: "\<forall>cv. getConversation e d conversationId = Some cv \<longrightarrow>
      (\<exists>ch \<in> set (chat d). bind_rowid e conversationId = Some (c_ROWID ch) \<and>
        cv_id cv = String_of_int (c_ROWID ch) \<and>
        cv_unreadCount cv =
          int (length [m \<leftarrow> chat_messages d (c_ROWID ch).
                 \<not> Boolean_of_int (m_is_read m) \<and> \<not> Boolean_of_int (m_is_from_me m)]))"
  proof (intro allI impI)
    fix cv
    assume "getConversation e d conversationId = Some cv"
    then have "\<exists>ch \<in> set (chat d). bind_rowid e conversationId = Some (c_ROWID ch) \<and>
        cv = conversationOfRow e d ch"
      by (rule getConversation_Some)
    then obtain ch :: chat_row where "ch \<in> set (chat d)"
      and "bind_rowid e conversationId = Some (c_ROWID ch)" and cv: "cv = conversationOfRow e d ch"
      by auto
    then show "\<exists>ch \<in> set (chat d). bind_rowid e conversationId = Some (c_ROWID ch) \<and>
        cv_id cv = String_of_int (c_ROWID ch) \<and>
        cv_unreadCount cv =
          int (length [m \<leftarrow> chat_messages d (c_ROWID ch).
                 \<not> Boolean_of_int (m_is_read m) \<and> \<not> Boolean_of_int (m_is_from_me m)])"
      unfolding cv using cnt idc by (intro bexI [of _ ch] conjI)
  qed
  from p1 p2 show ?thesis
    by (simp add: mapRowToMessage_fields)
qed

theorem unread_count_counts_unread_not_from_me_witness:
  "map cv_unreadCount (getConversations sample_env sample_db) = [3, 1] \<and>
   map cv_id (getConversations sample_env sample_db) = [''1'', ''2''] \<and>
   map (\<lambda>ch. int (length [m \<leftarrow> chat_messages sample_db (c_ROWID ch).
                 \<not> Boolean_of_int (m_is_read m) \<and> \<not> Boolean_of_int (m_is_from_me m)]))
     (chat sample_db) = [3, 1, 0] \<and>
   map_option cv_unreadCount (getConversation sample_env sample_db ''1'') = Some 3"
proof -
  have v: "map cv_unreadCount (getConversations sample_env sample_db) = [3, 1]"
      "map cv_id (getConversations sample_env sample_db) = [''1'', ''2'']"
      "map (\<lambda>ch. int (length [m \<leftarrow> chat_messages sample_db (c_ROWID ch).
                 \<not> Boolean_of_int (m_is_read m) \<and> \<not> Boolean_of_int (m_is_from_me m)]))
         (chat sample_db) = [3, 1, 0]"
    by code_simp+
  have g: "getConversation sample_env sample_db ''1'' \<noteq> None"
    by code_simp
  then obtain cv where cv: "getConversation sample_env sample_db ''1'' = Some cv"
    by auto
  have b: "bind_rowid sample_env ''1'' = Some 1"
    by code_simp
  from unread_count_counts_unread_not_from_me [of sample_env sample_db "''1''"] cv
  obtain ch :: chat_row where "ch \<in> set (chat sample_db)"
    and "bind_rowid sample_env ''1'' = Some (c_ROWID ch)"
    and u: "cv_unreadCount cv = int (length [m \<leftarrow> chat_messages sample_db (c_ROWID ch).
                 \<not> Boolean_of_int (m_is_read m) \<and> \<not> Boolean_of_int (m_is_from_me m)])"
    by blast
  with b have "c_ROWID ch = 1"
    by simp
  moreover have "int (length [m \<leftarrow> chat_messages sample_db 1.
                 \<not> Boolean_of_int (m_is_read m) \<and> \<not> Boolean_of_int (m_is_from_me m)]) = 3"
    by code_simp
  ultimately have "cv_unreadCount cv = 3"
    using u by simp
  with v cv show ?thesis
    by simp
qed

subsection \<open>Pagination\<close>

lemma fetch_rows_no_cursor:
  "fetch_rows e d cid l None = sql_limit ((l + 1) * 3) (order_by_date_desc (rows_of_conversation e d cid))"
  by (simp add: fetch_rows_def before_cursor_def int_or_undefined_def)

lemma sql_limit_int: "sql_limit (int n) xs = take n xs"
  by (simp add: sql_limit_def)

lemma filter_take_all:
  assumes "\<forall>x \<in> set (drop k xs). \<not> P x"
  shows "filter P (take k xs) = filter P xs"
proof -
  have "filter P xs = filter P (take k xs @ drop k xs)"
    by simp
  also have "\<dots> = filter P (take k xs) @ filter P (drop k xs)"
    by (rule filter_append)
  also from assms have "filter P (drop k xs) = []"
    by (simp add: filter_empty_conv)
  finally show ?thesis
    by simp
qed

lemma getMessages_unfold:
  "getMessages e d cid (Some l) before =
     \<lparr> messages = map (attachReactions e d cid
                       (buildReactionsMap e (filter is_reaction_row (fetch_rows e d cid l before))))
                    (rev (slice0 l (filter (\<lambda>r. \<not> is_reaction_row r) (fetch_rows e d cid l before)))),
        hasMore = (int (length (filter (\<lambda>r. \<not> is_reaction_row r) (fetch_rows e d cid l before))) > l) \<rparr>"
  by (simp add: getMessages_def Let_def rev_map)

lemma sorted_dates_ascending:
  "sorted (map (\<lambda>r. m_date (fst r)) (rev (filter P (order_by_date_desc rows))))"
proof -
  have "rev (filter P (order_by_date_desc rows)) = filter P (sort_key (\<lambda>r. m_date (fst r)) rows)"
    by (simp add: order_by_date_desc_def rev_filter)
  then show ?thesis
    by (simp add: sorted_filter)
qed

text \<open>
  Claim C1, amended. Take a conversation with exactly \<open>N\<close> non-reaction rows and no cursor.
  If every row beyond the newest \<open>3 * (N + 1)\<close> rows is a reaction, \<^verbatim>\<open>getMessages\<close> with limit
  \<open>N\<close> returns all \<open>N\<close> messages with \<^verbatim>\<open>hasMore\<close> false. If \<open>N\<close> is at least 1 and every row
  beyond the newest \<open>3 * N\<close> rows is a reaction, the limit \<open>N - 1\<close> gives the \<open>N - 1\<close> newest
  messages with \<^verbatim>\<open>hasMore\<close> true. Both pages are in ascending order of the rows' raw date.
\<close>

theorem pagination_boundary:
  "let all_rows = order_by_date_desc (rows_of_conversation e d conversationId);
       message_rows = filter (\<lambda>r. \<not> is_reaction_row r) all_rows;
       N = length message_rows
   in ((\<forall>r \<in> set (drop (3 * (N + 1)) all_rows). is_reaction_row r) \<longrightarrow>
         hasMore (getMessages e d conversationId (Some (int N)) None) = False \<and>
         length (messages (getMessages e d conversationId (Some (int N)) None)) = N \<and>
         (\<exists>reactionsMap. messages (getMessages e d conversationId (Some (int N)) None) =
            map (attachReactions e d conversationId reactionsMap) (rev message_rows))) \<and>
      (1 \<le> N \<and> (\<forall>r \<in> set (drop (3 * N) all_rows). is_reaction_row r) \<longrightarrow>
         hasMore (getMessages e d conversationId (Some (int N - 1)) None) = True \<and>
         length (messages (getMessages e d conversationId (Some (int N - 1)) None)) = N - 1 \<and>
         (\<exists>reactionsMap. messages (getMessages e d conversationId (Some (int N - 1)) None) =
            map (attachReactions e d conversationId reactionsMap) (rev (take (N - 1) message_rows)))) \<and>
      sorted (map (\<lambda>r. m_date (fst r)) (rev message_rows)) \<and>
      sorted (map (\<lambda>r. m_date (fst r)) (rev (take (N - 1) message_rows)))"
proof -
  define all_rows where "all_rows = order_by_date_desc (rows_of_conversation e d conversationId)"
  define message_rows where "message_rows = filter (\<lambda>r. \<not> is_reaction_row r) all_rows"
  define N where "N = length message_rows"
  have full: "hasMore (getMessages e d conversationId (Some (int N)) None) = False \<and>
         length (messages (getMessages e d conversationId (Some (int N)) None)) = N \<and>
         (\<exists>reactionsMap. messages (getMessages e d conversationId (Some (int N)) None) =
            map (attachReactions e d conversationId reactionsMap) (rev message_rows))"
    if w: "\<forall>r \<in> set (drop (3 * (N + 1)) all_rows). is_reaction_row r"
  proof -
    have k: "(int N + 1) * 3 = int (3 * (N + 1))"
      by simp
    have f: "fetch_rows e d conversationId (int N) None = take (3 * (N + 1)) all_rows"
      unfolding fetch_rows_no_cursor k sql_limit_int all_rows_def ..
    have m: "filter (\<lambda>r. \<not> is_reaction_row r) (take (3 * (N + 1)) all_rows) = message_rows"
      unfolding message_rows_def using w by (intro filter_take_all) simp
    have s: "slice0 (int N) message_rows = message_rows"
      by (simp add: slice0_def N_def)
    show ?thesis
      unfolding getMessages_unfold f m s by (auto simp: N_def)
  qed
  have part: "hasMore (getMessages e d conversationId (Some (int N - 1)) None) = True \<and>
         length (messages (getMessages e d conversationId (Some (int N - 1)) None)) = N - 1 \<and>
         (\<exists>reactionsMap. messages (getMessages e d conversationId (Some (int N - 1)) None) =
            map (attachReactions e d conversationId reactionsMap) (rev (take (N - 1) message_rows)))"
    if n: "1 \<le> N" and w: "\<forall>r \<in> set (drop (3 * N) all_rows). is_reaction_row r"
  proof -
    have k: "(int N - 1 + 1) * 3 = int (3 * N)"
      by simp
    have f: "fetch_rows e d conversationId (int N - 1) None = take (3 * N) all_rows"
      unfolding fetch_rows_no_cursor k sql_limit_int all_rows_def ..
    have m: "filter (\<lambda>r. \<not> is_reaction_row r) (take (3 * N) all_rows) = message_rows"
      unfolding message_rows_def using w by (intro filter_take_all) simp
    have s: "slice0 (int N - 1) message_rows = take (N - 1) message_rows"
      using n by (simp add: slice0_def nat_diff_distrib)
    show ?thesis
      unfolding getMessages_unfold f m s using n by (auto simp: N_def)
  qed
  have asc: "sorted (map (\<lambda>r. m_date (fst r)) (rev message_rows))"
    unfolding message_rows_def all_rows_def by (rule sorted_dates_ascending)
  have "rev (take (N - 1) message_rows) = drop (length message_rows - (N - 1)) (rev message_rows)"
    by (simp add: rev_take)
  then have asc': "sorted (map (\<lambda>r. m_date (fst r)) (rev (take (N - 1) message_rows)))"
    using asc by (simp add: drop_map [symmetric] sorted_wrt_drop del: drop_map)
  from full part asc asc' show ?thesis
    unfolding Let_def all_rows_def [symmetric] message_rows_def [symmetric] N_def [symmetric]
    by (intro conjI impI) simp_all
qed

text \<open>
  Claim C1, as stated, in a conversation with one message and six later reactions: the six
  rows fetched for the limit 1 are all reactions, so the page is empty; for the limit 0 the
  three rows fetched are reactions and \<^verbatim>\<open>hasMore\<close> is false.
\<close>

theorem pagination_overfetch_counterexample:
  "length (filter (\<lambda>r. \<not> is_reaction_row r) (rows_of_conversation sample_env crowded_db ''1'')) = 1 \<and>
   messages (getMessages sample_env crowded_db ''1'' (Some 1) None) = [] \<and>
   hasMore (getMessages sample_env crowded_db ''1'' (Some 0) None) = False"
  by code_simp


theorem pagination_boundary_witness:
  "length (filter (\<lambda>r. \<not> is_reaction_row r)
     (order_by_date_desc (rows_of_conversation sample_env sample_db ''1''))) = 2 \<and>
   drop 6 (order_by_date_desc (rows_of_conversation sample_env sample_db ''1'')) = [] \<and>
   hasMore (getMessages sample_env sample_db ''1'' (Some 2) None) = False \<and>
   length (messages (getMessages sample_env sample_db ''1'' (Some 2) None)) = 2 \<and>
   hasMore (getMessages sample_env sample_db ''1'' (Some 1) None) = True \<and>
   length (messages (getMessages sample_env sample_db ''1'' (Some 1) None)) = 1 \<and>
   map msg_id (messages (getMessages sample_env sample_db ''1'' (Some 2) None)) = [''A'', ''C''] \<and>
   map msg_id (messages (getMessages sample_env sample_db ''1'' (Some 1) None)) = [''C'']"
proof -
  have n: "length (filter (\<lambda>r. \<not> is_reaction_row r)
     (order_by_date_desc (rows_of_conversation sample_env sample_db ''1''))) = 2"
    by code_simp
  have d6: "drop 6 (order_by_date_desc (rows_of_conversation sample_env sample_db ''1'')) = []"
    by code_simp
  have d9: "drop 9 (order_by_date_desc (rows_of_conversation sample_env sample_db ''1'')) = []"
    by code_simp
  have ids: "map msg_id (messages (getMessages sample_env sample_db ''1'' (Some 2) None)) = [''A'', ''C'']"
    "map msg_id (messages (getMessages sample_env sample_db ''1'' (Some 1) None)) = [''C'']"
    by code_simp+
  note th = pagination_boundary [of sample_env sample_db "''1''", unfolded Let_def n]
  have e9: "set (drop (3 * (2 + 1)) (order_by_date_desc (rows_of_conversation sample_env sample_db ''1''))) = {}"
    using d9 by simp
  have e6: "set (drop (3 * 2) (order_by_date_desc (rows_of_conversation sample_env sample_db ''1''))) = {}"
    using d6 by simp
  from th [THEN conjunct1] have "hasMore (getMessages sample_env sample_db ''1'' (Some (int 2)) None) = False \<and>
     length (messages (getMessages sample_env sample_db ''1'' (Some (int 2)) None)) = 2"
    unfolding e9 by blast
  moreover have "(1::nat) \<le> 2 \<and> Ball {} is_reaction_row"
    by simp
  with th [THEN conjunct2, THEN conjunct1, unfolded e6]
  have "hasMore (getMessages sample_env sample_db ''1'' (Some (int 2 - 1)) None) = True \<and>
     length (messages (getMessages sample_env sample_db ''1'' (Some (int 2 - 1)) None)) = 2 - 1"
    by blast
  moreover have "int 2 = 2" and "int 2 - 1 = 1" and "(2::nat) - 1 = 1"
    by simp_all
  ultimately have "hasMore (getMessages sample_env sample_db ''1'' (Some 2) None) = False \<and>
     length (messages (getMessages sample_env sample_db ''1'' (Some 2) None)) = 2 \<and>
     hasMore (getMessages sample_env sample_db ''1'' (Some 1) None) = True \<and>
     length (messages (getMessages sample_env sample_db ''1'' (Some 1) None)) = 1"
    by metis
  with n d6 ids show ?thesis
    by (intro conjI) blast+
qed

subsection \<open>Reaction folding\<close>

lemma dom_REACTION_TYPE_MAP: "dom REACTION_TYPE_MAP = {2000..2005}"
proof
  show "dom REACTION_TYPE_MAP \<subseteq> {2000..2005}"
    by (auto simp: REACTION_TYPE_MAP_def split: if_splits)
  show "{2000..2005} \<subseteq> dom REACTION_TYPE_MAP"
  proof
    fix k :: int
    assume "k \<in> {2000..2005}"
    then have "k = 2000 \<or> k = 2001 \<or> k = 2002 \<or> k = 2003 \<or> k = 2004 \<or> k = 2005"
      by auto
    then show "k \<in> dom REACTION_TYPE_MAP"
      by (auto simp: REACTION_TYPE_MAP_def)
  qed
qed

lemma add_code_iff:
  "(\<not> isRemoveReaction t \<and> getReactionType t \<noteq> None) = (2000 \<le> t \<and> t \<le> 2005)"
proof -
  have m: "(REACTION_TYPE_MAP k \<noteq> None) = (2000 \<le> k \<and> k \<le> 2005)" for k
    using dom_REACTION_TYPE_MAP by (auto simp: dom_def)
  show ?thesis
    unfolding getReactionType_def Let_def isRemoveReaction_def m by auto
qed

lemma add_code_type: "2000 \<le> t \<Longrightarrow> t \<le> 2005 \<Longrightarrow> getReactionType t = REACTION_TYPE_MAP t"
  by (simp add: getReactionType_def)

lemma addReaction_entries:
  "entries (addReaction e r mp) g =
     entries mp g @ (if filed_under g r then [reaction_entry e r] else [])"
proof (cases "string_or_undefined (m_associated_message_guid (fst r))")
  case None
  then show ?thesis
    by (simp add: addReaction_def filed_under_def)
next
  case (Some a)
  note a = this
  show ?thesis
  proof (cases "m_associated_message_type (fst r)")
    case None
    with a show ?thesis
      by (simp add: addReaction_def filed_under_def)
  next
    case (Some t)
    show ?thesis
    proof (cases "\<not> isRemoveReaction t \<and> getReactionType t \<noteq> None")
      case True
      then have "2000 \<le> t" and "t \<le> 2005"
        using add_code_iff [of t] by simp_all
      then have "getReactionType t = REACTION_TYPE_MAP t"
        by (rule add_code_type)
      with True a Some show ?thesis
        by (auto simp: addReaction_def filed_under_def Let_def entries_def reaction_entry_def)
    next
      case False
      with a Some show ?thesis
        by (auto simp: addReaction_def filed_under_def)
    qed
  qed
qed

lemma fold_addReaction_entries:
  "entries (fold (addReaction e) rs mp) g =
     entries mp g @ map (reaction_entry e) (filter (filed_under g) rs)"
  by (induction rs arbitrary: mp) (simp_all add: addReaction_entries)

lemma filed_under_is_reaction_row: "filed_under g r \<Longrightarrow> is_reaction_row r"
proof -
  assume f: "filed_under g r"
  then obtain t where t: "m_associated_message_type (fst r) = Some t"
    and "\<not> isRemoveReaction t \<and> getReactionType t \<noteq> None"
    by (auto simp: filed_under_def split: option.splits)
  then have "2000 \<le> t \<and> t \<le> 2005"
    using add_code_iff [of t] by simp
  with t show ?thesis
    by (simp add: is_reaction_row_def isReactionMessage_def)
qed

lemma buildReactionsMap_entries:
  "entries (buildReactionsMap e (filter is_reaction_row rows)) g =
     map (reaction_entry e) (filter (filed_under g) rows)"
proof -
  have f: "filter (filed_under g) (filter is_reaction_row rows) = filter (filed_under g) rows"
    by (auto simp: filed_under_is_reaction_row intro: filter_cong)
  have "entries (buildReactionsMap e (filter is_reaction_row rows)) g =
      entries Map.empty g @ map (reaction_entry e) (filter (filed_under g) (filter is_reaction_row rows))"
    unfolding buildReactionsMap_def by (rule fold_addReaction_entries)
  also have "\<dots> = map (reaction_entry e) (filter (filed_under g) rows)"
    unfolding f by (simp add: entries_def)
  finally show ?thesis .
qed

text \<open>What the pattern of \<open>parentGuidOf\<close> strips: on a plain association id, the prefix.\<close>

lemma take_eq_prefix: "(take (length p) s = p) = prefix p s"
  by (metis append_eq_conv_conj prefix_def take_is_prefix)

lemma strip_by_patterns:
  "strip_association_prefix s =
     (case numbered_prefix s of
        Some rest \<Rightarrow> rest
      | None \<Rightarrow> (case short_prefix s of Some rest \<Rightarrow> rest | None \<Rightarrow> s))"
proof -
  have p2: "(take 2 s = ''p:'') = prefix ''p:'' s"
    using take_eq_prefix [of "''p:''" s] by (simp add: numeral_2_eq_2)
  have p3: "(take 3 s = ''bp:'') = prefix ''bp:'' s"
    using take_eq_prefix [of "''bp:''" s] by (simp add: numeral_3_eq_3)
  have d: "dropWhile is_digit (drop 2 s) = drop (2 + length (takeWhile is_digit (drop 2 s))) s"
    by (simp add: dropWhile_eq_drop add.commute)
  have p1: "(take 1 xs = ''/'') = prefix ''/'' xs" for xs :: string
    using take_eq_prefix [of "''/''" xs] by simp
  show ?thesis
    unfolding strip_association_prefix_def numbered_prefix_def short_prefix_def Let_def p2 p3 d p1
    by (simp add: numeral_3_eq_3)
qed

lemma dot_plus_plain:
  assumes "list_all (\<lambda>c. \<not> is_line_terminator c) s" and "s \<noteq> []"
  shows "dot_plus s = Some s"
proof -
  from assms(1) have all: "takeWhile (\<lambda>c. \<not> is_line_terminator c) s = s"
    by (simp add: list_all_iff)
  show ?thesis
    unfolding dot_plus_def Let_def all using assms(2) by simp
qed

lemma parentGuidOf_strips_prefix:
  assumes "plain_association_id a"
  shows "parentGuidOf a = strip_association_prefix a"
proof -
  from assms have "dot_plus (strip_association_prefix a) = Some (strip_association_prefix a)"
    by (intro dot_plus_plain) (simp_all add: plain_association_id_def)
  then have m: "match_at a = Some (strip_association_prefix a)"
    by (auto simp: match_at_def strip_by_patterns split: option.splits)
  from assms have "a \<noteq> []"
    by (auto simp: plain_association_id_def strip_association_prefix_def Let_def)
  then obtain c cs where "a = c # cs"
    by (cases a) auto
  with m have "match_first a = Some (strip_association_prefix a)"
    by simp
  then show ?thesis
    by (simp add: parentGuidOf_def)
qed

lemma adds_reaction_to_filed_under:
  assumes "plain_row r"
  shows "adds_reaction_to g r = filed_under g r"
proof (cases "m_associated_message_guid (fst r)")
  case None
  then show ?thesis
    by (simp add: adds_reaction_to_def filed_under_def string_or_undefined_def)
next
  case (Some a)
  note a = this
  show ?thesis
  proof (cases "m_associated_message_type (fst r)")
    case None
    then show ?thesis
      by (simp add: adds_reaction_to_def filed_under_def split: option.splits)
  next
    case (Some t)
    note t = this
    show ?thesis
    proof (cases "a \<noteq> [] \<and> 2000 \<le> t \<and> t \<le> 2005")
      case True
      with assms a t have "plain_association_id a"
        by (simp add: plain_row_def)
      then have "parentGuidOf a = strip_association_prefix a"
        by (rule parentGuidOf_strips_prefix)
      with a t True show ?thesis
        using add_code_iff [of t]
        by (auto simp: adds_reaction_to_def filed_under_def string_or_undefined_def)
    next
      case False
      with a t show ?thesis
        using add_code_iff [of t]
        by (auto simp: adds_reaction_to_def filed_under_def string_or_undefined_def)
    qed
  qed
qed

lemma attachReactions_attached:
  assumes "list_all plain_row rows"
  shows "attachReactions e d cid (buildReactionsMap e (filter is_reaction_row rows)) r =
     (mapRowToMessage e d r cid) \<lparr> msg_reactions := attached_reactions e rows (m_guid (fst r)) \<rparr>"
proof (cases "m_guid (fst r)")
  case None
  then show ?thesis
    by (simp add: attachReactions_def attached_reactions_def)
next
  case (Some g)
  have "adds_reaction_to g x = filed_under g x" if "x \<in> set rows" for x
  proof -
    from that assms have "plain_row x"
      by (simp add: list_all_iff)
    then show ?thesis
      by (rule adds_reaction_to_filed_under)
  qed
  then have "filter (adds_reaction_to g) rows = filter (filed_under g) rows"
    by (intro filter_cong) simp_all
  with Some show ?thesis
    using buildReactionsMap_entries [of e rows g]
    by (simp add: attachReactions_def attached_reactions_def entries_def)
qed

lemma not_reaction_type:
  "isReactionMessage (int_or_undefined t) = isReactionMessage t"
  by (auto simp: isReactionMessage_def int_or_undefined_def split: option.splits)

lemma eligible_not_reaction:
  "(case t of None \<Rightarrow> True | Some k \<Rightarrow> k < 2000 \<or> k > 3005) \<Longrightarrow> \<not> isReactionMessage t"
  by (auto simp: isReactionMessage_def split: option.splits)


text \<open>
  Claim C2, amended. No message returned by \<^verbatim>\<open>getMessages\<close> and no \<^verbatim>\<open>lastMessage\<close> of a
  conversation is classified as a reaction. The page is built from the non-reaction rows
  among the rows fetched (the newest \<open>3 * (limit + 1)\<close> rows dated before the cursor). When
  every add-reaction row fetched has a plain association id, the reactions of a returned
  message are exactly the entries of the fetched rows whose type is an add code and whose
  association id, once a \<^verbatim>\<open>p:N/\<close> or \<^verbatim>\<open>bp:\<close> prefix is stripped, is the \<^verbatim>\<open>guid\<close> of the
  message, in the order fetched. A remove-reaction row adds a reaction to no message.
\<close>

theorem reaction_folding:
  "let limit = (case limit_arg of None \<Rightarrow> 100 | Some l \<Rightarrow> l);
       rows = fetch_rows e d conversationId limit before
   in (\<forall>m \<in> set (messages (getMessages e d conversationId limit_arg before)).
         \<not> isReactionMessage (msg_associatedMessageType m)) \<and>
      (\<forall>cv \<in> set (getConversations e d). \<forall>m. cv_lastMessage cv = Some m \<longrightarrow>
         \<not> isReactionMessage (msg_associatedMessageType m)) \<and>
      (\<forall>cv m. getConversation e d conversationId = Some cv \<and> cv_lastMessage cv = Some m \<longrightarrow>
         \<not> isReactionMessage (msg_associatedMessageType m)) \<and>
      (list_all plain_row rows \<longrightarrow>
         messages (getMessages e d conversationId limit_arg before) =
           rev (map (\<lambda>r. (mapRowToMessage e d r conversationId)
                           \<lparr> msg_reactions := attached_reactions e rows (m_guid (fst r)) \<rparr>)
                  (slice0 limit (filter (\<lambda>r. \<not> is_reaction_row r) rows)))) \<and>
      (\<forall>r g. (case m_associated_message_type (fst r) of None \<Rightarrow> False | Some t \<Rightarrow> isRemoveReaction t)
          \<longrightarrow> \<not> adds_reaction_to g r \<and> \<not> filed_under g r)"
proof -
  define limit where "limit = (case limit_arg of None \<Rightarrow> 100 | Some l \<Rightarrow> l)"
  define rows where "rows = fetch_rows e d conversationId limit before"
  have p1: "\<forall>m \<in> set (messages (getMessages e d conversationId limit_arg before)).
         \<not> isReactionMessage (msg_associatedMessageType m)"
  proof
    fix m
    assume "m \<in> set (messages (getMessages e d conversationId limit_arg before))"
    then obtain r rm where "\<not> is_reaction_row r" and "m = attachReactions e d conversationId rm r"
      using messages_getMessages [of m e d conversationId limit_arg before] by auto
    then show "\<not> isReactionMessage (msg_associatedMessageType m)"
      by (simp add: attachReactions_fields not_reaction_type is_reaction_row_def)
  qed
  have last: "\<not> isReactionMessage (msg_associatedMessageType m)"
    if "getLastMessageForChat e d k = Some m" for k m
  proof -
    from that obtain r where
      "case m_associated_message_type (fst r) of None \<Rightarrow> True | Some t \<Rightarrow> t < 2000 \<or> t > 3005"
      and "m = mapRowToMessage e d r (String_of_int k)"
      using getLastMessageForChat_Some [of e d k m] by auto
    then show ?thesis
      by (simp add: mapRowToMessage_fields not_reaction_type eligible_not_reaction)
  qed
  have p2: "\<forall>cv \<in> set (getConversations e d). \<forall>m. cv_lastMessage cv = Some m \<longrightarrow>
         \<not> isReactionMessage (msg_associatedMessageType m)"
  proof (intro ballI allI impI)
    fix cv m
    assume "cv \<in> set (getConversations e d)" and "cv_lastMessage cv = Some m"
    then have "\<exists>ch \<in> set (chat d). getLastMessageForChat e d (c_ROWID ch) = Some m"
      by (rule getConversations_lastMessage)
    then obtain ch :: chat_row where "getLastMessageForChat e d (c_ROWID ch) = Some m"
      by auto
    then show "\<not> isReactionMessage (msg_associatedMessageType m)"
      by (rule last)
  qed
  have p3: "\<forall>cv m. getConversation e d conversationId = Some cv \<and> cv_lastMessage cv = Some m \<longrightarrow>
         \<not> isReactionMessage (msg_associatedMessageType m)"
  proof (intro allI impI)
    fix cv m
    assume a: "getConversation e d conversationId = Some cv \<and> cv_lastMessage cv = Some m"
    then have "getConversation e d conversationId = Some cv"
      by simp
    then have "\<exists>ch \<in> set (chat d). bind_rowid e conversationId = Some (c_ROWID ch) \<and>
        cv = conversationOfRow e d ch"
      by (rule getConversation_Some)
    then obtain ch where "cv = conversationOfRow e d ch"
      by auto
    with a have "getLastMessageForChat e d (c_ROWID ch) = Some m"
      by (simp add: conversationOfRow_def Let_def)
    then show "\<not> isReactionMessage (msg_associatedMessageType m)"
      by (rule last)
  qed
  have p4: "list_all plain_row rows \<longrightarrow>
      messages (getMessages e d conversationId limit_arg before) =
        rev (map (\<lambda>r. (mapRowToMessage e d r conversationId)
                        \<lparr> msg_reactions := attached_reactions e rows (m_guid (fst r)) \<rparr>)
               (slice0 limit (filter (\<lambda>r. \<not> is_reaction_row r) rows)))"
  proof
    assume "list_all plain_row rows"
    then have "attachReactions e d conversationId (buildReactionsMap e (filter is_reaction_row rows)) =
        (\<lambda>r. (mapRowToMessage e d r conversationId)
                \<lparr> msg_reactions := attached_reactions e rows (m_guid (fst r)) \<rparr>)"
      by (intro ext attachReactions_attached)
    then show "messages (getMessages e d conversationId limit_arg before) =
        rev (map (\<lambda>r. (mapRowToMessage e d r conversationId)
                        \<lparr> msg_reactions := attached_reactions e rows (m_guid (fst r)) \<rparr>)
               (slice0 limit (filter (\<lambda>r. \<not> is_reaction_row r) rows)))"
      by (simp add: getMessages_def Let_def limit_def [symmetric] rows_def [symmetric] rev_map)
  qed
  have p5: "\<forall>r g. (case m_associated_message_type (fst r) of None \<Rightarrow> False | Some t \<Rightarrow> isRemoveReaction t)
          \<longrightarrow> \<not> adds_reaction_to g r \<and> \<not> filed_under g r"
    by (auto simp: adds_reaction_to_def filed_under_def isRemoveReaction_def split: option.splits)
  from p1 p2 p3 p4 p5 show ?thesis
    unfolding Let_def limit_def [symmetric] rows_def [symmetric] by (intro conjI)
qed

text \<open>
  Claim C2, as stated. With a cursor: B is an add-reaction row of conversation 1 whose
  association id, stripped, is the identifier of A, but B is dated after the cursor and is
  not fetched, so the page returns A without reactions. With an association id that is not
  plain: the love with association id \<^verbatim>\<open>bp:\<close>, which stripped is empty, is attached to the
  message \<^verbatim>\<open>bp:\<close>, and the like whose association id is A, a line feed and B is attached
  to the message A.
\<close>

theorem reaction_missed_counterexample:
  "(row_B, Some ''+15551234567'') \<in> set (rows_of_conversation sample_env sample_db ''1'') \<and>
   m_associated_message_type row_B = Some 2000 \<and>
   map_option strip_association_prefix (m_associated_message_guid row_B) = Some ''A'' \<and>
   map msg_id (messages (getMessages sample_env sample_db ''1'' (Some 10) (Some 25000000))) =
     [''A'', ''C''] \<and>
   map msg_reactions (messages (getMessages sample_env sample_db ''1'' (Some 10) (Some 25000000))) =
     [[], []] \<and>
   strip_association_prefix ''bp:'' = [] \<and>
   strip_association_prefix [CHR ''A'', CHR 0x0A, CHR ''B''] = [CHR ''A'', CHR 0x0A, CHR ''B''] \<and>
   map msg_id (messages (getMessages sample_env odd_db ''1'' None None)) = [''A'', ''bp:''] \<and>
   map (map rx_type \<circ> msg_reactions) (messages (getMessages sample_env odd_db ''1'' None None)) =
     [[Like], [Love]]"
  by code_simp

theorem reaction_folding_witness:
  "list_all plain_row (fetch_rows sample_env folding_db ''1'' 100 None) \<and>
   map strip_association_prefix [''p:0/A'', ''bp:A'', ''p:12/A'', ''A'', ''p:/A'', ''p:1A''] =
     [''A'', ''A'', ''A'', ''A'', ''p:/A'', ''p:1A''] \<and>
   map msg_id (messages (getMessages sample_env folding_db ''1'' None None)) = [''A''] \<and>
   map msg_reactions (messages (getMessages sample_env folding_db ''1'' None None)) =
     [attached_reactions sample_env (fetch_rows sample_env folding_db ''1'' 100 None) (Some ''A'')] \<and>
   map rx_type
     (attached_reactions sample_env (fetch_rows sample_env folding_db ''1'' 100 None) (Some ''A'')) =
     [Laugh, Dislike, Like, Love] \<and>
   list_all (\<lambda>m. \<not> isReactionMessage (msg_associatedMessageType m))
     (messages (getMessages sample_env folding_db ''1'' None None)) \<and>
   \<not> adds_reaction_to ''A'' (reaction_row 6 ''p:0/A'' 3004, None) \<and>
   \<not> filed_under ''A'' (reaction_row 6 ''p:0/A'' 3004, None)"
proof -
  have plain: "list_all plain_row (fetch_rows sample_env folding_db ''1'' 100 None)"
    by code_simp
  have v: "map strip_association_prefix [''p:0/A'', ''bp:A'', ''p:12/A'', ''A'', ''p:/A'', ''p:1A''] =
     [''A'', ''A'', ''A'', ''A'', ''p:/A'', ''p:1A'']"
    "map msg_id (messages (getMessages sample_env folding_db ''1'' None None)) = [''A'']"
    "map rx_type
     (attached_reactions sample_env (fetch_rows sample_env folding_db ''1'' 100 None) (Some ''A'')) =
     [Laugh, Dislike, Like, Love]"
    by code_simp+
  have one: "map (m_guid \<circ> fst)
      (slice0 100 (filter (\<lambda>r. \<not> is_reaction_row r) (fetch_rows sample_env folding_db ''1'' 100 None))) =
      [Some ''A'']"
    by code_simp
  have rem: "case m_associated_message_type (fst (reaction_row 6 ''p:0/A'' 3004, None)) of
               None \<Rightarrow> False | Some t \<Rightarrow> isRemoveReaction t"
    by code_simp
  note th = reaction_folding [of None sample_env folding_db "''1''" None, unfolded Let_def]
  from th [THEN conjunct1]
  have nr: "list_all (\<lambda>m. \<not> isReactionMessage (msg_associatedMessageType m))
     (messages (getMessages sample_env folding_db ''1'' None None))"
    by (simp add: list_all_iff)
  from th [THEN conjunct2, THEN conjunct2, THEN conjunct2, THEN conjunct1] plain
  have "map msg_reactions (messages (getMessages sample_env folding_db ''1'' None None)) =
     map (attached_reactions sample_env (fetch_rows sample_env folding_db ''1'' 100 None))
       (rev (map (m_guid \<circ> fst)
          (slice0 100 (filter (\<lambda>r. \<not> is_reaction_row r)
             (fetch_rows sample_env folding_db ''1'' 100 None)))))"
    by (simp add: rev_map comp_def)
  then have att: "map msg_reactions (messages (getMessages sample_env folding_db ''1'' None None)) =
     [attached_reactions sample_env (fetch_rows sample_env folding_db ''1'' 100 None) (Some ''A'')]"
    unfolding one by simp
  from th [THEN conjunct2, THEN conjunct2, THEN conjunct2, THEN conjunct2] rem
  have "\<not> adds_reaction_to ''A'' (reaction_row 6 ''p:0/A'' 3004, None) \<and>
        \<not> filed_under ''A'' (reaction_row 6 ''p:0/A'' 3004, None)"
    by blast
  with plain v nr att show ?thesis
    by simp
qed

subsection \<open>The order of conversations\<close>











subsection \<open>The reaction classifier\<close>

lemma getReactionType_add_range:
  "map getReactionType [2000, 2001, 2002, 2003, 2004, 2005] =
     [Some Love, Some Like, Some Dislike, Some Laugh, Some Emphasis, Some Question]"
  by (simp add: getReactionType_def REACTION_TYPE_MAP_def)

text \<open>
  Claim C4. Every integer code in [2000,2005] or [3000,3005] is classified as a reaction;
  every other integer code, and the null code, is not; a remove code in [3000,3005] has the
  reaction type of the add code 1000 below it, and the add codes 2000 .. 2005 map, in this
  order, to love, like, dislike, laugh, emphasis, question.
\<close>

theorem reaction_classification:
  "(code \<in> {2000..2005} \<union> {3000..3005} \<longrightarrow> isReactionMessage (Some code)) \<and>
   (code \<notin> {2000..2005} \<union> {3000..3005} \<longrightarrow> \<not> isReactionMessage (Some code)) \<and>
   \<not> isReactionMessage None \<and>
   (code \<in> {3000..3005} \<longrightarrow>
      getReactionType code = getReactionType (code - 1000) \<and>
      getReactionType code = REACTION_TYPE_MAP (code - 1000) \<and>
      getReactionType code \<noteq> None) \<and>
   map getReactionType [2000, 2001, 2002, 2003, 2004, 2005] =
     [Some Love, Some Like, Some Dislike, Some Laugh, Some Emphasis, Some Question] \<and>
   dom REACTION_TYPE_MAP = {2000..2005}"
proof -
  note dom_eq = dom_REACTION_TYPE_MAP
  have rem: "getReactionType code = getReactionType (code - 1000) \<and>
             getReactionType code = REACTION_TYPE_MAP (code - 1000) \<and>
             getReactionType code \<noteq> None" if "code \<in> {3000..3005}"
  proof -
    from that have "code - 1000 \<in> dom REACTION_TYPE_MAP"
      unfolding dom_eq by simp
    then have "REACTION_TYPE_MAP (code - 1000) \<noteq> None"
      by auto
    with that show ?thesis
      by (simp add: getReactionType_def)
  qed
  have cls: "isReactionMessage (Some code) \<longleftrightarrow> code \<in> {2000..2005} \<union> {3000..3005}"
    by (auto simp: isReactionMessage_def)
  have null: "\<not> isReactionMessage None"
    by (simp add: isReactionMessage_def)
  from cls null rem dom_eq getReactionType_add_range show ?thesis
    by blast
qed

theorem reaction_classification_witness:
  "isReactionMessage (Some 3001) \<and> \<not> isReactionMessage (Some 2006) \<and>
   getReactionType 3001 = getReactionType 2001 \<and> getReactionType 3001 = Some Like"
  using reaction_classification [of 3001] reaction_classification [of 2006]
  by (simp add: REACTION_TYPE_MAP_def)

end
